theory Spec2Isabelle
  imports Main "HOL-Library.Extended_Nat" "HOL-Library.Signed_Division" "HOL-Library.Sublist"
begin

section \<open>Constants (types.ts)\<close>

text \<open>
  JavaScript numbers are modelled as unbounded integers (\<open>int\<close>) where the program only
  ever holds integers (grid indexes, scores, counters), and as rationals (\<open>rat\<close>) where it
  divides (the random stream, the pixel coordinates). Rounding of IEEE doubles is not
  modelled.
\<close>

definition CANVAS_WIDTH :: int where "CANVAS_WIDTH = 200"

definition CANVAS_HEIGHT :: int where "CANVAS_HEIGHT = 400"

definition TICK_RATE_MS :: int where "TICK_RATE_MS = 1"

definition INITIAL_SPEED :: int where "INITIAL_SPEED = 100"

definition GRID_WIDTH :: int where "GRID_WIDTH = 10"

definition GRID_HEIGHT :: int where "GRID_HEIGHT = 20"

definition MAX_SPEED :: int where "MAX_SPEED = 10"

definition Cube_Dimensions_WIDTH :: int where
  "Cube_Dimensions_WIDTH = CANVAS_WIDTH div GRID_WIDTH"

definition Cube_Dimensions_HEIGHT :: int where
  "Cube_Dimensions_HEIGHT = CANVAS_HEIGHT div GRID_HEIGHT"

definition NUM_OF_ROWS :: int where
  "NUM_OF_ROWS = CANVAS_HEIGHT div Cube_Dimensions_HEIGHT"

definition COL_MIDPOINT :: int where
  "COL_MIDPOINT = (CANVAS_WIDTH div Cube_Dimensions_WIDTH) div 2"

definition NUM_OF_COLUMNS :: int where
  "NUM_OF_COLUMNS = CANVAS_WIDTH div Cube_Dimensions_WIDTH"

definition TETRIMINO_TYPES :: "string list" where
  "TETRIMINO_TYPES = [''I'', ''J'', ''L'', ''O'', ''S'', ''T'', ''Z'']"

definition DEFAULT_CHOICE :: int where "DEFAULT_CHOICE = 3"

definition TETRIMINO_SIZE :: int where "TETRIMINO_SIZE = 4"

section \<open>Data model (types.ts)\<close>

text \<open>
  The \<open>id\<close> of a cube is the string
  \<open>cubeCount-rowIndex-colIndex-scale(hash(rowIndex + colIndex))\<close>; the model keeps the
  four numbers the string is printed from. The fields \<open>id\<close>, \<open>x\<close>, \<open>y\<close>, \<open>width\<close>,
  \<open>height\<close> and \<open>style\<close> carry the prefix \<open>cube_\<close>.
\<close>

record Cube =
  cube_id :: "int \<times> int \<times> int \<times> rat"
  cube_x :: int
  cube_y :: int
  grid_row :: int
  grid_col :: int
  cube_width :: string
  cube_height :: string
  cube_style :: string
  center :: bool

type_synonym Grid = "Cube option list list"

record State =
  gameEnd :: bool
  activeBlock :: "Cube list"
  grid :: Grid
  shapePreview :: string
  clearBlocks :: "Cube list"
  randomTetriminoType :: string
  score :: int
  highScore :: int
  level :: int
  objCount :: int

datatype direction = clockwise | anticlockwise

datatype Action =
    GenerateBlock int
  | Tick int
  | Move int
  | Restart
  | Rotate direction
  | Drop

text \<open>
  The only exception the transition functions can raise is the \<open>TypeError\<close> of reading a
  property of \<open>undefined\<close>: a row of the grid that does not exist, or a layout that the
  table of tetriminos does not have. A function that can raise returns \<open>error + 'a\<close>.
\<close>

datatype error = TypeError

definition ebind :: "error + 'a \<Rightarrow> ('a \<Rightarrow> error + 'b) \<Rightarrow> error + 'b" where
  "ebind m f = (case m of Inl e \<Rightarrow> Inl e | Inr v \<Rightarrow> f v)"

section \<open>Utility functions (util.ts)\<close>

subsection \<open>The random number generator\<close>

definition RNG_m :: int where "RNG_m = 2147483648"

definition RNG_a :: int where "RNG_a = 1103515245"

definition RNG_c :: int where "RNG_c = 12345"

definition RNG_hash :: "int \<Rightarrow> int" where
  "RNG_hash seed = (RNG_a * seed + RNG_c) smod RNG_m"

definition RNG_scale :: "int \<Rightarrow> rat" where
  "RNG_scale hash = (2 * of_int hash) / (of_int RNG_m - 1) - 1"

subsection \<open>Generic helpers\<close>

text \<open>\<open>xs[i]\<close> of JavaScript: \<open>None\<close> stands for \<open>undefined\<close>.\<close>

definition js_index :: "'a list \<Rightarrow> int \<Rightarrow> 'a option" where
  "js_index xs i = (if 0 \<le> i \<and> i < int (length xs) then Some (xs ! nat i) else None)"

definition flatMap :: "'a list \<Rightarrow> ('a \<Rightarrow> 'b list) \<Rightarrow> 'b list" where
  "flatMap arr appliedFunction = concat (map appliedFunction arr)"

text \<open>\<open>.filter(isNotNullOrUndefined)\<close> on an array of nullable cubes.\<close>

fun filterNotNull :: "'a option list \<Rightarrow> 'a list" where
  "filterNotNull [] = []"
| "filterNotNull (None # xs) = filterNotNull xs"
| "filterNotNull (Some v # xs) = v # filterNotNull xs"

fun indexOf :: "'a list \<Rightarrow> 'a \<Rightarrow> nat \<Rightarrow> nat option" where
  "indexOf [] item k = None"
| "indexOf (v # xs) item k = (if v = item then Some k else indexOf xs item (Suc k))"

definition removeDuplicates :: "'a list \<Rightarrow> 'a list" where
  "removeDuplicates list =
     map snd (filter (\<lambda>(index, item). indexOf list item 0 = Some index) (List.enumerate 0 list))"

definition js_max :: "int \<Rightarrow> int \<Rightarrow> int" where
  "js_max first second = (if first > second then first else second)"

text \<open>\<open>Math.min(...xs)\<close>: \<open>None\<close> stands for \<open>Infinity\<close>, the minimum of no numbers.\<close>

fun Math_min :: "int list \<Rightarrow> int option" where
  "Math_min [] = None"
| "Math_min (v # xs) = (case Math_min xs of None \<Rightarrow> Some v | Some m \<Rightarrow> Some (min v m))"

fun less_than_min :: "int \<Rightarrow> int option \<Rightarrow> bool" where
  "less_than_min v None = True"
| "less_than_min v (Some m) = (v < m)"

text \<open>\<open>xs.filter(p)\<close> where the predicate can raise: every element is tested, in order.\<close>

fun filter_err :: "('a \<Rightarrow> error + bool) \<Rightarrow> 'a list \<Rightarrow> error + 'a list" where
  "filter_err p [] = Inr []"
| "filter_err p (v # xs) =
     ebind (p v) (\<lambda>keep. ebind (filter_err p xs) (\<lambda>rest. Inr (if keep then v # rest else rest)))"

subsection \<open>Coordinates\<close>

definition calculateXcoord :: "int \<Rightarrow> int" where
  "calculateXcoord col = \<lfloor>(of_int col :: rat) / of_int NUM_OF_COLUMNS * of_int CANVAS_WIDTH\<rfloor>"

definition calculateYcoord :: "int \<Rightarrow> int" where
  "calculateYcoord row = \<lfloor>(of_int row :: rat) / of_int NUM_OF_ROWS * of_int CANVAS_HEIGHT\<rfloor>"

subsection \<open>Boundary and occupancy predicates\<close>

definition checkCubeRowExceedsBoundaries :: "Cube \<Rightarrow> bool" where
  "checkCubeRowExceedsBoundaries cube = (grid_row cube \<ge> NUM_OF_ROWS - 1 \<or> grid_row cube < 0)"

definition checkCubeColExceedsBoundaries :: "Cube \<Rightarrow> bool" where
  "checkCubeColExceedsBoundaries cube = (grid_col cube < 0 \<or> grid_col cube > NUM_OF_COLUMNS - 1)"

text \<open>
  \<open>g[r][c] !== null\<close>: a row that does not exist raises; a column that does not exist
  reads \<open>undefined\<close>, which is not \<open>null\<close>.
\<close>

definition cellNotNull :: "Grid \<Rightarrow> int \<Rightarrow> int \<Rightarrow> error + bool" where
  "cellNotNull g r c =
     (case js_index g r of
        None \<Rightarrow> Inl TypeError
      | Some row \<Rightarrow> (case js_index row c of None \<Rightarrow> Inr True | Some cell \<Rightarrow> Inr (cell \<noteq> None)))"

definition cantMoveLeft :: "Grid \<Rightarrow> Cube \<Rightarrow> error + bool" where
  "cantMoveLeft g cube =
     (if grid_col cube \<le> 0 then Inr True else cellNotNull g (grid_row cube) (grid_col cube - 1))"

definition cantMoveRight :: "Grid \<Rightarrow> Cube \<Rightarrow> error + bool" where
  "cantMoveRight g cube =
     (if grid_col cube \<ge> NUM_OF_COLUMNS - 1 then Inr True
      else cellNotNull g (grid_row cube) (grid_col cube + 1))"

definition cantMoveDown :: "Grid \<Rightarrow> Cube \<Rightarrow> error + bool" where
  "cantMoveDown g cube = cellNotNull g (grid_row cube + 1) (grid_col cube)"

definition checkCurrentCell :: "Grid \<Rightarrow> Cube \<Rightarrow> error + bool" where
  "checkCurrentCell g cube = cellNotNull g (grid_row cube) (grid_col cube)"

text \<open>A predicate that cannot raise, as a condition of the collision check.\<close>

definition total :: "(Cube \<Rightarrow> bool) \<Rightarrow> Cube \<Rightarrow> error + bool" where
  "total p cube = Inr (p cube)"

text \<open>\<open>conditions.some(condition => condition(cube))\<close>: left to right, stopping at the first
  condition that holds.\<close>

fun checkCollisions :: "(Cube \<Rightarrow> error + bool) list \<Rightarrow> Cube \<Rightarrow> error + bool" where
  "checkCollisions [] cube = Inr False"
| "checkCollisions (condition # conditions) cube =
     ebind (condition cube) (\<lambda>b. if b then Inr True else checkCollisions conditions cube)"

definition checkBlockCollision :: "(Cube \<Rightarrow> error + bool) list \<Rightarrow> Cube list \<Rightarrow> error + bool" where
  "checkBlockCollision conditions block =
     ebind (filter_err (checkCollisions conditions) block) (\<lambda>hit. Inr (length hit > 0))"

subsection \<open>Grid operations\<close>

definition isCubeHere :: "int \<Rightarrow> int \<Rightarrow> Cube \<Rightarrow> bool" where
  "isCubeHere rowIndex colIndex cube = (grid_row cube = rowIndex \<and> grid_col cube = colIndex)"

definition setBlockInArray :: "Grid \<Rightarrow> Cube list \<Rightarrow> Grid" where
  "setBlockInArray gridArray block =
     map (\<lambda>(rowIndex, row).
            map (\<lambda>(colIndex, cell).
                   (case find (isCubeHere (int rowIndex) (int colIndex)) block of
                      Some cubeInActiveBlock \<Rightarrow> Some cubeInActiveBlock
                    | None \<Rightarrow> cell))
                (List.enumerate 0 row))
         (List.enumerate 0 gridArray)"

definition getRecentlyPlacedRows :: "Cube list \<Rightarrow> int list" where
  "getRecentlyPlacedRows block = removeDuplicates (map grid_row block)"

definition rowFilled :: "Grid \<Rightarrow> int \<Rightarrow> error + bool" where
  "rowFilled gridArray rowIndex =
     (case js_index gridArray rowIndex of
        None \<Rightarrow> Inl TypeError
      | Some row \<Rightarrow> Inr (list_all (\<lambda>column. column \<noteq> None) row))"

definition getDeletingRows :: "Grid \<Rightarrow> int list \<Rightarrow> error + int list" where
  "getDeletingRows gridArray rowIndexes = filter_err (rowFilled gridArray) rowIndexes"

definition getRemovedCubes :: "Grid \<Rightarrow> int list \<Rightarrow> Cube list" where
  "getRemovedCubes g deletingRowIndexes =
     filterNotNull
       (flatMap g (filter (\<lambda>cell. case cell of None \<Rightarrow> False
                                 | Some cube \<Rightarrow> List.member deletingRowIndexes (grid_row cube))))"

definition moveCube :: "int \<Rightarrow> Cube \<Rightarrow> Cube" where
  "moveCube amount cube =
     cube\<lparr>grid_row := grid_row cube + amount, cube_y := calculateYcoord (grid_row cube + amount)\<rparr>"

definition generate2DArray :: "(int \<Rightarrow> int \<Rightarrow> Cube option) \<Rightarrow> Grid" where
  "generate2DArray generateCell =
     map (\<lambda>rowIndex. map (\<lambda>colIndex. generateCell (int rowIndex) (int colIndex))
                          [0 ..< nat NUM_OF_COLUMNS])
         [0 ..< nat NUM_OF_ROWS]"

definition leftOverCubes :: "Grid \<Rightarrow> int list \<Rightarrow> Cube list" where
  "leftOverCubes g deletingRowIndexes =
     map (\<lambda>cube. if less_than_min (grid_row cube) (Math_min deletingRowIndexes)
                  then moveCube (int (length deletingRowIndexes)) cube else cube)
         (filterNotNull
            (flatMap g (filter (\<lambda>cell. case cell of None \<Rightarrow> False
                                      | Some cube \<Rightarrow> \<not> List.member deletingRowIndexes (grid_row cube)))))"

definition removeRowsAndShiftDown :: "Grid \<Rightarrow> int list \<Rightarrow> Grid" where
  "removeRowsAndShiftDown g deletingRowIndexes =
     generate2DArray (\<lambda>rowIndex colIndex.
        find (\<lambda>cube. grid_row cube = rowIndex \<and> colIndex = grid_col cube)
             (leftOverCubes g deletingRowIndexes))"

definition isColumnFilled :: "Grid \<Rightarrow> error + bool" where
  "isColumnFilled g =
     (case js_index g 0 of
        None \<Rightarrow> Inl TypeError
      | Some row \<Rightarrow> Inr (list_ex (\<lambda>cell. cell \<noteq> None) row))"

section \<open>Block factory (state.ts)\<close>

text \<open>
  The table of layouts. A key that the table does not have reads \<open>undefined\<close> (\<open>None\<close>).
  The centre of the square is \<open>(Infinity, Infinity)\<close>: extended naturals hold it.
\<close>

definition tetriminoLayouts :: "string \<Rightarrow> (int list list \<times> enat \<times> enat) option" where
  "tetriminoLayouts key =
     (if key = ''I'' then Some ([[1, 1, 1, 1]], 0, 1)
      else if key = ''J'' then Some ([[1, 0, 0], [1, 1, 1]], 1, 1)
      else if key = ''L'' then Some ([[0, 0, 1], [1, 1, 1]], 1, 1)
      else if key = ''O'' then Some ([[1, 1], [1, 1]], \<infinity>, \<infinity>)
      else if key = ''S'' then Some ([[0, 1, 1], [1, 1, 0]], 1, 1)
      else if key = ''T'' then Some ([[0, 1, 0], [1, 1, 1]], 1, 1)
      else if key = ''Z'' then Some ([[1, 1, 0], [0, 1, 1]], 1, 1)
      else None)"

text \<open>\<open>width\<close> and \<open>height\<close> are the decimal strings of the cube dimensions, both 20.\<close>

definition createCube :: "int \<Rightarrow> int \<Rightarrow> int \<Rightarrow> bool \<Rightarrow> Cube" where
  "createCube rowIndex colIndex cubeCount isCenter =
     \<lparr>cube_id = (cubeCount, rowIndex, colIndex, RNG_scale (RNG_hash (rowIndex + colIndex))),
      cube_x = calculateXcoord colIndex,
      cube_y = calculateYcoord rowIndex,
      grid_row = rowIndex,
      grid_col = colIndex,
      cube_width = ''20'',
      cube_height = ''20'',
      cube_style = ''fill: green'',
      center = isCenter\<rparr>"

definition createBlock :: "string \<Rightarrow> int \<Rightarrow> error + Cube list" where
  "createBlock tetriminoType cubeCount =
     (case tetriminoLayouts tetriminoType of
        None \<Rightarrow> Inl TypeError
      | Some (layout, centerRow, centerCol) \<Rightarrow>
          Inr (filterNotNull
                 (flatMap (List.enumerate 0 layout)
                    (\<lambda>(rowIndex, row).
                       map (\<lambda>(colIndex, col).
                              let generate = createCube (int rowIndex)
                                               (int colIndex + COL_MIDPOINT - 1) cubeCount;
                                  isCenter = (enat rowIndex = centerRow \<and> enat colIndex = centerCol)
                              in if col = 1
                                 then (if isCenter then Some (generate True) else Some (generate False))
                                 else None)
                           (List.enumerate 0 row)))))"

definition startingBlock :: "Cube list" where
  "startingBlock = projr (createBlock ''O'' 4)"

definition initialState :: State where
  "initialState =
     \<lparr>gameEnd = False,
      activeBlock = startingBlock,
      grid = generate2DArray (\<lambda>rowIndex colIndex. None),
      shapePreview = ''T'',
      clearBlocks = [],
      randomTetriminoType = ''J'',
      score = 0,
      highScore = 0,
      level = 0,
      objCount = int (length startingBlock)\<rparr>"

section \<open>State updates (state.ts)\<close>

subsection \<open>GenerateBlock\<close>

definition checkIndex :: "int \<Rightarrow> bool" where
  "checkIndex tetriminoTypeIndex =
     (tetriminoTypeIndex \<ge> 0 \<and> tetriminoTypeIndex < int (length TETRIMINO_TYPES))"

definition GenerateBlock_apply :: "int \<Rightarrow> State \<Rightarrow> State" where
  "GenerateBlock_apply tetriminoTypeIndex s =
     s\<lparr>randomTetriminoType :=
          (if checkIndex tetriminoTypeIndex then TETRIMINO_TYPES ! nat tetriminoTypeIndex
           else TETRIMINO_TYPES ! nat DEFAULT_CHOICE)\<rparr>"

subsection \<open>Tick\<close>

definition handleBlockClear :: "State \<Rightarrow> int list \<Rightarrow> State" where
  "handleBlockClear state deletingRows =
     (let removedCubes = getRemovedCubes (grid state) deletingRows;
          newScore = score state + NUM_OF_COLUMNS * int (length deletingRows)
      in state\<lparr>shapePreview := randomTetriminoType state,
               grid := removeRowsAndShiftDown (grid state) deletingRows,
               score := newScore,
               level := newScore div NUM_OF_COLUMNS,
               clearBlocks := clearBlocks state @ removedCubes\<rparr>)"

definition handleCollisions :: "State \<Rightarrow> error + State" where
  "handleCollisions state =
     (let updatedGrid = setBlockInArray (grid state) (activeBlock state) in
      ebind (createBlock (shapePreview state) (TETRIMINO_SIZE + objCount state)) (\<lambda>newActiveBlock.
      ebind (checkBlockCollision [checkCurrentCell updatedGrid] newActiveBlock) (\<lambda>spawnOverlap.
      let recentlyPlacedRows = getRecentlyPlacedRows (activeBlock state) in
      ebind (getDeletingRows updatedGrid recentlyPlacedRows) (\<lambda>deletingRows.
      ebind (isColumnFilled updatedGrid) (\<lambda>filled.
        if length deletingRows > 0
        then Inr (handleBlockClear
                    (state\<lparr>activeBlock := (if \<not> spawnOverlap then newActiveBlock else activeBlock state),
                           grid := updatedGrid,
                           objCount := objCount state + int (length newActiveBlock),
                           gameEnd := (filled \<or> spawnOverlap),
                           clearBlocks := clearBlocks state\<rparr>)
                    deletingRows)
        else Inr (state\<lparr>activeBlock := (if \<not> spawnOverlap then newActiveBlock else activeBlock state),
                        shapePreview := randomTetriminoType state,
                        grid := updatedGrid,
                        objCount := objCount state + int (length newActiveBlock),
                        gameEnd := (filled \<or> spawnOverlap)\<rparr>))))))"

definition Tick_apply :: "int \<Rightarrow> State \<Rightarrow> error + State" where
  "Tick_apply elapsed state =
     ebind (checkBlockCollision [total checkCubeRowExceedsBoundaries, cantMoveDown (grid state)]
              (activeBlock state)) (\<lambda>isCollision.
       if gameEnd state then Inr state
       else if isCollision then handleCollisions state
       else ebind (isColumnFilled (grid state)) (\<lambda>filled.
              Inr (state\<lparr>activeBlock := map (moveCube 1) (activeBlock state),
                         gameEnd := filled\<rparr>)))"

subsection \<open>Move\<close>

definition updateCubeX :: "int \<Rightarrow> Cube \<Rightarrow> Cube" where
  "updateCubeX direction cube =
     cube\<lparr>grid_col := grid_col cube + direction,
          cube_x := calculateXcoord (grid_col cube + direction)\<rparr>"

definition Move_apply :: "int \<Rightarrow> State \<Rightarrow> error + State" where
  "Move_apply direction s =
     (let isOutOfBoundaries =
            (\<lambda>cube. if direction > 0 then cantMoveRight (grid s) cube else cantMoveLeft (grid s) cube)
      in ebind (checkBlockCollision [isOutOfBoundaries] (activeBlock s)) (\<lambda>blocked.
           Inr (s\<lparr>activeBlock := (if blocked then activeBlock s
                                   else map (updateCubeX direction) (activeBlock s))\<rparr>)))"

subsection \<open>Restart\<close>

definition Restart_apply :: "State \<Rightarrow> error + State" where
  "Restart_apply state =
     (let removingCubes = filterNotNull (flatMap (grid state) (map (\<lambda>cell. cell))) in
      if gameEnd state
      then ebind (createBlock (randomTetriminoType state) (objCount state + TETRIMINO_SIZE)) (\<lambda>block.
             Inr (initialState\<lparr>activeBlock := block,
                               shapePreview := randomTetriminoType state,
                               highScore := js_max (highScore state) (score state),
                               grid := generate2DArray (\<lambda>rowIndex colIndex. None),
                               objCount := objCount state + TETRIMINO_SIZE * 3,
                               gameEnd := False,
                               clearBlocks := clearBlocks state @ removingCubes @ activeBlock state\<rparr>))
      else Inr state)"

subsection \<open>Rotate\<close>

definition rotateCube :: "direction \<Rightarrow> Cube \<Rightarrow> Cube \<Rightarrow> Cube" where
  "rotateCube dir centerCube cube =
     (let newRow = (if dir = clockwise then grid_row centerCube - grid_col centerCube + grid_col cube
                    else grid_row centerCube + grid_col centerCube - grid_col cube);
          newCol = (if dir = clockwise then grid_col centerCube + grid_row centerCube - grid_row cube
                    else grid_col centerCube - grid_row centerCube + grid_row cube)
      in cube\<lparr>grid_row := newRow,
              grid_col := newCol,
              cube_x := calculateXcoord newCol,
              cube_y := calculateYcoord newRow\<rparr>)"

definition canRotate :: "Grid \<Rightarrow> Cube list \<Rightarrow> error + bool" where
  "canRotate g block =
     ebind (checkBlockCollision [checkCurrentCell g, total checkCubeRowExceedsBoundaries,
                                 total checkCubeColExceedsBoundaries] block)
           (\<lambda>collides. Inr (\<not> collides))"

definition Rotate_apply :: "direction \<Rightarrow> State \<Rightarrow> error + State" where
  "Rotate_apply dir state =
     (case find (\<lambda>cube. center cube = True) (activeBlock state) of
        None \<Rightarrow> Inr state
      | Some centerCube \<Rightarrow>
          (let newActiveBlock = map (rotateCube dir centerCube) (activeBlock state) in
           ebind (canRotate (grid state) newActiveBlock) (\<lambda>ok.
             Inr (state\<lparr>activeBlock := (if ok then newActiveBlock else activeBlock state)\<rparr>))))"

subsection \<open>Drop\<close>

text \<open>
  \<open>Drop.apply\<close> calls itself as long as the block, moved one row down, does not collide.
  Nothing bounds the recursion in the source: where it does not end, the value is \<open>None\<close>.
\<close>

definition canDrop :: "Grid \<Rightarrow> Cube list \<Rightarrow> error + bool" where
  "canDrop g block =
     ebind (checkBlockCollision [total checkCubeRowExceedsBoundaries, cantMoveDown g] block)
           (\<lambda>collides. Inr (\<not> collides))"

partial_function (option) Drop_apply :: "State \<Rightarrow> (error + State) option" where
  "Drop_apply state =
     (let newState = state\<lparr>activeBlock := map (moveCube 1) (activeBlock state)\<rparr> in
      case canDrop (grid state) (activeBlock newState) of
        Inl e \<Rightarrow> Some (Inl e)
      | Inr ok \<Rightarrow> if ok then Drop_apply newState else Some (Inr state))"

declare Drop_apply.simps [code]

subsection \<open>The reducer\<close>

fun apply_action :: "Action \<Rightarrow> State \<Rightarrow> (error + State) option" where
  "apply_action (GenerateBlock tetriminoTypeIndex) s = Some (Inr (GenerateBlock_apply tetriminoTypeIndex s))"
| "apply_action (Tick elapsed) s = Some (Tick_apply elapsed s)"
| "apply_action (Move direction) s = Some (Move_apply direction s)"
| "apply_action Restart s = Some (Restart_apply s)"
| "apply_action (Rotate dir) s = Some (Rotate_apply dir s)"
| "apply_action Drop s = Drop_apply s"

fun isTickAction :: "Action \<Rightarrow> bool" where
  "isTickAction (Tick elapsed) = True"
| "isTickAction action = False"

fun getElapsed :: "Action \<Rightarrow> int" where
  "getElapsed (Tick elapsed) = elapsed"
| "getElapsed action = 0"

definition reduceState :: "State \<Rightarrow> Action \<Rightarrow> (error + State) option" where
  "reduceState s action =
     (let speedMultiplier = js_max (INITIAL_SPEED - level s * 10) MAX_SPEED in
      if \<not> isTickAction action \<or> getElapsed action smod speedMultiplier = 0
      then apply_action action s else Some (Inr s))"

subsection \<open>The random block type (main.ts)\<close>

definition randomTetrominoIndex :: "rat \<Rightarrow> int" where
  "randomTetrominoIndex randNum = \<bar>\<lfloor>randNum * of_int (int (length TETRIMINO_TYPES)) - 1\<rfloor>\<bar>"

section \<open>The action stream (main.ts)\<close>

text \<open>
  \<open>scan(reduceState, initialState)\<close> over the merged stream of actions: the states are
  folded in arrival order, and an exception in the reducer ends the stream.
\<close>

fun run_actions :: "Action list \<Rightarrow> State \<Rightarrow> (error + State) option" where
  "run_actions [] s = Some (Inr s)"
| "run_actions (action # actions) s =
     (case reduceState s action of
        Some (Inr s') \<Rightarrow> run_actions actions s'
      | Some (Inl e) \<Rightarrow> Some (Inl e)
      | None \<Rightarrow> None)"

section \<open>Notions of the specification\<close>

text \<open>The grid position of a cube.\<close>

definition coords :: "Cube \<Rightarrow> int \<times> int" where
  "coords cube = (grid_row cube, grid_col cube)"

text \<open>The cubes a grid holds, row by row.\<close>

definition cubesOf :: "Grid \<Rightarrow> Cube list" where
  "cubesOf g = filterNotNull (concat g)"

text \<open>The content of a cell; outside the grid there is no cube.\<close>

definition cellAt :: "Grid \<Rightarrow> int \<Rightarrow> int \<Rightarrow> Cube option" where
  "cellAt g r c =
     (case js_index g r of
        None \<Rightarrow> None
      | Some row \<Rightarrow> (case js_index row c of None \<Rightarrow> None | Some cell \<Rightarrow> cell))"

text \<open>
  A well-formed grid has \<open>rowCount\<close> rows of \<open>columnCount\<close> cells, and every cube it
  holds carries the row and column of its own cell.
\<close>

definition wfGrid :: "Grid \<Rightarrow> bool" where
  "wfGrid g =
     (int (length g) = NUM_OF_ROWS
      \<and> list_all (\<lambda>(r, row). int (length row) = NUM_OF_COLUMNS
            \<and> list_all (\<lambda>(c, cell). case cell of None \<Rightarrow> True
                           | Some cube \<Rightarrow> grid_row cube = int r \<and> grid_col cube = int c)
                 (List.enumerate 0 row))
           (List.enumerate 0 g))"

text \<open>A cube inside the grid: \<open>0 \<le> row \<le> rowCount - 1\<close> and \<open>0 \<le> column \<le> columnCount - 1\<close>.\<close>

definition cubeInGrid :: "Cube \<Rightarrow> bool" where
  "cubeInGrid cube =
     (0 \<le> grid_row cube \<and> grid_row cube \<le> NUM_OF_ROWS - 1
      \<and> 0 \<le> grid_col cube \<and> grid_col cube \<le> NUM_OF_COLUMNS - 1)"

definition blockInGrid :: "Cube list \<Rightarrow> bool" where
  "blockInGrid block = list_all cubeInGrid block"

text \<open>The actions that \<open>main\<close> emits: a Move is one column to the right or to the left.\<close>

fun emitted :: "Action \<Rightarrow> bool" where
  "emitted (Move direction) = (direction = 1 \<or> direction = - 1)"
| "emitted action = True"

text \<open>The states that the reducer reaches from the initial state without raising.\<close>

inductive reachable :: "State \<Rightarrow> bool" where
  initial: "reachable initialState"
| step: "reachable s \<Longrightarrow> emitted action \<Longrightarrow> reduceState s action = Some (Inr s') \<Longrightarrow> reachable s'"

text \<open>
  A rotation is accepted when the active block has a centre cube and the rotated block
  passes the check of \<open>Rotate.apply\<close> (no cell occupied, no boundary exceeded).
\<close>

definition rotationAccepted :: "direction \<Rightarrow> State \<Rightarrow> bool" where
  "rotationAccepted dir s =
     (case find (\<lambda>cube. center cube = True) (activeBlock s) of
        None \<Rightarrow> False
      | Some centerCube \<Rightarrow>
          canRotate (grid s) (map (rotateCube dir centerCube) (activeBlock s)) = Inr True)"

text \<open>
  The rows that the active block touches and that are fully occupied once the block is
  set into the grid.
\<close>

definition touchedFullRows :: "State \<Rightarrow> int set" where
  "touchedFullRows s =
     Set.filter (\<lambda>r. rowFilled (setBlockInArray (grid s) (activeBlock s)) r = Inr True)
       (grid_row ` set (activeBlock s))"

text \<open>What \<open>removeRowsAndShiftDown\<close> does to a cube that survives: \<open>checkIfCubeAboveRemovedRow\<close>.\<close>

definition shiftCube :: "int list \<Rightarrow> Cube \<Rightarrow> Cube" where
  "shiftCube R cube =
     (if less_than_min (grid_row cube) (Math_min R) then moveCube (int (length R)) cube else cube)"

section \<open>Example states\<close>

text \<open>A T block five rows below its spawn position, on the empty grid.\<close>

definition tBlockState :: State where
  "tBlockState = initialState\<lparr>activeBlock := map (moveCube 5) (projr (createBlock ''T'' 8))\<rparr>"

text \<open>The square block on the floor (rows 18 and 19, columns 4 and 5), the rest of row 19
  occupied.\<close>

definition nearlyFullState :: State where
  "nearlyFullState =
     initialState\<lparr>activeBlock := map (moveCube 18) startingBlock,
                  grid := generate2DArray (\<lambda>rowIndex colIndex.
                     if rowIndex = 19 \<and> colIndex \<noteq> 4 \<and> colIndex \<noteq> 5
                     then Some (createCube rowIndex colIndex 0 False) else None)\<rparr>"

text \<open>The grid of \<open>nearlyFullState\<close> with the square block set into it.\<close>

definition lockedGrid :: Grid where
  "lockedGrid = setBlockInArray (grid nearlyFullState) (activeBlock nearlyFullState)"

text \<open>The state after the Tick that locks the square block of \<open>nearlyFullState\<close> and
  clears row 19.\<close>

definition clearedState :: State where
  "clearedState = projr (Tick_apply 0 nearlyFullState)"

text \<open>The initial state with the game ended.\<close>

definition endedState :: State where
  "endedState = initialState\<lparr>gameEnd := True\<rparr>"

subsection \<open>States reached from the initial state\<close>

text \<open>The square block dropped and locked on the floor; the T block has spawned.\<close>

definition squareLockedState :: State where
  "squareLockedState = projr (the (run_actions [Drop, Tick 0, Tick 100] initialState))"

text \<open>Drop applied to the T block of \<open>squareLockedState\<close>.\<close>

definition droppedState :: State where
  "droppedState = projr (the (Drop_apply squareLockedState))"

text \<open>The shape I staged, the square and the T block locked: the I block has spawned.\<close>

definition lineSpawnedState :: State where
  "lineSpawnedState =
     projr (the (run_actions [GenerateBlock 0, Drop, Tick 0, Tick 100, Drop, Tick 200, Tick 300]
                   initialState))"

text \<open>
  A game in which one block completes two rows that are not adjacent. Seven blocks are
  moved, dropped and locked: O, T and I in row 19, two I in rows 18 and 17 of columns 6
  to 9, O and T in row 17; column 5 stays empty. The eighth block, I, is moved one row
  down, rotated upright and dropped, and a Tick takes it to rows 16 to 19 of column 5.
\<close>

definition twoRowsActions :: "Action list" where
  "twoRowsActions =
     [GenerateBlock 0, Move (- 1), Drop, Tick 0, Tick 100,
      Move (- 1), Move (- 1), Move (- 1), Move (- 1), Drop, Tick 200, Tick 300,
      Move 1, Move 1, Drop, Tick 400, Tick 500,
      GenerateBlock 3, Move 1, Move 1, Drop, Tick 600, Tick 700,
      GenerateBlock 5, Move 1, Move 1, Drop, Tick 800, Tick 900,
      GenerateBlock 0, Move (- 1), Drop, Tick 1000, Tick 1100,
      Move (- 1), Move (- 1), Move (- 1), Move (- 1), Drop, Tick 1200, Tick 1300,
      Tick 1400, Rotate clockwise, Drop, Tick 1500]"

text \<open>A block of the factory, moved by a number of columns and of rows.\<close>

definition placedBlock :: "string \<Rightarrow> int \<Rightarrow> int \<Rightarrow> int \<Rightarrow> Cube list" where
  "placedBlock tetriminoType cubeCount columns rows =
     map (moveCube rows) (map (updateCubeX columns) (projr (createBlock tetriminoType cubeCount)))"

text \<open>The eighth block: moved one row down, turned clockwise about its centre cube, and
  moved sixteen rows down.\<close>

definition uprightBlock :: "Cube list" where
  "uprightBlock =
     map (moveCube 16)
       (map (rotateCube clockwise (moveCube 1 (createCube 0 5 32 True)))
          (map (moveCube 1) (projr (createBlock ''I'' 32))))"

text \<open>The state that \<open>twoRowsActions\<close> reaches: the upright block rests on the floor and
  the next Tick locks it.\<close>

definition twoRowsState :: State where
  "twoRowsState =
     initialState\<lparr>activeBlock := uprightBlock,
                  grid := foldl setBlockInArray (grid initialState)
                     [placedBlock ''O'' 4 (- 1) 18, placedBlock ''T'' 8 (- 4) 18,
                      placedBlock ''I'' 12 2 19, placedBlock ''I'' 16 2 18,
                      placedBlock ''I'' 20 2 17, placedBlock ''O'' 24 (- 1) 16,
                      placedBlock ''T'' 28 (- 4) 16],
                  shapePreview := ''I'',
                  randomTetriminoType := ''I'',
                  objCount := 32\<rparr>"

text \<open>The grid of \<open>twoRowsState\<close> with the upright block set into it.\<close>

definition twoRowsGrid :: Grid where
  "twoRowsGrid = setBlockInArray (grid twoRowsState) (activeBlock twoRowsState)"

section \<open>Basic facts\<close>

lemma NUM_OF_ROWS_eq: "NUM_OF_ROWS = 20"
  by (simp add: NUM_OF_ROWS_def CANVAS_HEIGHT_def Cube_Dimensions_HEIGHT_def GRID_HEIGHT_def)

lemma NUM_OF_COLUMNS_eq: "NUM_OF_COLUMNS = 10"
  by (simp add: NUM_OF_COLUMNS_def CANVAS_WIDTH_def Cube_Dimensions_WIDTH_def GRID_WIDTH_def)

lemma COL_MIDPOINT_eq: "COL_MIDPOINT = 5"
  by (simp add: COL_MIDPOINT_def CANVAS_WIDTH_def Cube_Dimensions_WIDTH_def GRID_WIDTH_def)

lemma calculateYcoord_eq: "calculateYcoord row = 20 * row"
proof -
  have "(of_int row :: rat) / 20 * 400 = of_int (20 * row)" by simp
  then show ?thesis
    unfolding calculateYcoord_def NUM_OF_ROWS_eq CANVAS_HEIGHT_def
    by (simp only: of_int_numeral floor_of_int)
qed

lemma calculateXcoord_eq: "calculateXcoord col = 20 * col"
proof -
  have "(of_int col :: rat) / 10 * 200 = of_int (20 * col)" by simp
  then show ?thesis
    unfolding calculateXcoord_def NUM_OF_COLUMNS_eq CANVAS_WIDTH_def
    by (simp only: of_int_numeral floor_of_int)
qed

lemma RNG_hash_6: "RNG_hash 6 = 178652871"
  by (simp add: RNG_hash_def RNG_a_def RNG_c_def RNG_m_def signed_modulo_int_def)

lemma index_of_first_random: "randomTetrominoIndex (RNG_scale (RNG_hash 6)) = 7"
proof -
  have "RNG_scale (RNG_hash 6) * 7 - 1 = - (14678728982 / 2147483647)"
    unfolding RNG_hash_6 by (simp add: RNG_scale_def RNG_m_def)
  moreover have "\<lfloor>- (14678728982 / 2147483647 :: rat)\<rfloor> = - 7"
    by (rule floor_unique) simp_all
  ultimately show ?thesis
    by (simp add: randomTetrominoIndex_def TETRIMINO_TYPES_def)
qed

lemma spec_index_of_first_random: "\<lfloor>\<bar>RNG_scale (RNG_hash 6)\<bar> * 7 - 1\<rfloor> = 4"
  unfolding RNG_hash_6
  by (simp add: RNG_scale_def RNG_m_def floor_eq_iff)

text \<open>The remainder of JavaScript (\<open>smod\<close>, the sign of the dividend) is zero exactly when
  the remainder of HOL (\<open>mod\<close>, the sign of the divisor) is.\<close>

lemma smod_eq_0_iff: "(k::int) smod l = 0 \<longleftrightarrow> k mod l = 0"
proof -
  have "k smod l = 0 \<longleftrightarrow> k = 0 \<or> \<bar>k\<bar> mod \<bar>l\<bar> = 0"
    by (simp add: signed_modulo_int_def sgn_if)
  also have "\<dots> \<longleftrightarrow> \<bar>k\<bar> mod \<bar>l\<bar> = 0" by auto
  also have "\<dots> \<longleftrightarrow> l dvd k" by (simp add: mod_eq_0_iff_dvd)
  also have "\<dots> \<longleftrightarrow> k mod l = 0" by (simp add: mod_eq_0_iff_dvd)
  finally show ?thesis .
qed

section \<open>Facts about the helpers\<close>

lemma filter_err_Inr:
  "filter_err p xs = Inr ys \<Longrightarrow> ys = filter (\<lambda>v. p v = Inr True) xs"
proof (induction xs arbitrary: ys)
  case Nil
  then show ?case by simp
next
  case (Cons v xs)
  then show ?case
    by (auto simp add: ebind_def split: sum.splits if_splits)
qed

lemma filter_err_all_Inr:
  "filter_err p xs = Inr ys \<Longrightarrow> v \<in> set xs \<Longrightarrow> \<not> isl (p v)"
proof (induction xs arbitrary: ys)
  case Nil
  then show ?case by simp
next
  case (Cons a xs)
  from Cons.prems(1) obtain keep rest where k: "p a = Inr keep" "filter_err p xs = Inr rest"
    by (auto simp add: ebind_def split: sum.splits)
  with Cons.IH [OF k(2)] Cons.prems(2) show ?case by auto
qed

lemma filter_err_total:
  "(\<And>v. v \<in> set xs \<Longrightarrow> \<not> isl (p v)) \<Longrightarrow> \<not> isl (filter_err p xs)"
proof (induction xs)
  case Nil
  then show ?case by simp
next
  case (Cons a xs)
  then have "\<not> isl (p a)" "\<not> isl (filter_err p xs)" by simp_all
  then obtain b ys where "p a = Inr b" "filter_err p xs = Inr ys"
    by (metis sum.collapse(2))
  then show ?case by (simp add: ebind_def)
qed

lemma indexOf_found:
  "v \<in> set xs \<Longrightarrow> \<exists>i. indexOf xs v k = Some i \<and> k \<le> i \<and> i - k < length xs \<and> xs ! (i - k) = v"
proof (induction xs arbitrary: k)
  case Nil
  then show ?case by simp
next
  case (Cons a xs)
  show ?case
  proof (cases "a = v")
    case True
    then show ?thesis by simp
  next
    case False
    with Cons.prems have "v \<in> set xs" by simp
    from Cons.IH [OF this, of "Suc k"] obtain i where
      i: "indexOf xs v (Suc k) = Some i" "Suc k \<le> i" "i - Suc k < length xs" "xs ! (i - Suc k) = v"
      by blast
    then have "(a # xs) ! (i - k) = v"
      by (simp add: nth_Cons split: nat.splits) (metis Suc_diff_Suc Suc_le_lessD old.nat.inject)
    with i False show ?thesis by auto
  qed
qed

lemma set_removeDuplicates: "set (removeDuplicates xs) = set xs"
proof
  show "set (removeDuplicates xs) \<subseteq> set xs"
    by (auto simp add: removeDuplicates_def in_set_enumerate_eq)
next
  show "set xs \<subseteq> set (removeDuplicates xs)"
  proof
    fix v assume "v \<in> set xs"
    from indexOf_found [OF this, of 0] obtain i where
      "indexOf xs v 0 = Some i" "i < length xs" "xs ! i = v" by auto
    then have "(i, v) \<in> set (filter (\<lambda>(index, item). indexOf xs item 0 = Some index) (List.enumerate 0 xs))"
      by (simp add: in_set_enumerate_eq)
    then show "v \<in> set (removeDuplicates xs)"
      unfolding removeDuplicates_def by force
  qed
qed

lemma distinct_removeDuplicates: "distinct (removeDuplicates xs)"
  unfolding removeDuplicates_def
  by (auto simp add: distinct_map distinct_enumerate inj_on_def)

lemma checkCollisions_False:
  "checkCollisions conditions cube = Inr False \<Longrightarrow> condition \<in> set conditions
   \<Longrightarrow> condition cube = Inr False"
proof (induction conditions)
  case Nil
  then show ?case by simp
next
  case (Cons a conditions)
  from Cons.prems(1) have a: "a cube = Inr False" and r: "checkCollisions conditions cube = Inr False"
    by (auto simp add: ebind_def split: sum.splits if_splits)
  with Cons.IH Cons.prems(2) show ?case by auto
qed

lemma checkBlockCollision_False:
  assumes "checkBlockCollision conditions block = Inr False"
    and "cube \<in> set block" and "condition \<in> set conditions"
  shows "condition cube = Inr False"
proof -
  from assms(1) obtain hit where hit: "filter_err (checkCollisions conditions) block = Inr hit"
    and "hit = []"
    by (auto simp add: checkBlockCollision_def ebind_def split: sum.splits)
  with filter_err_Inr [OF hit]
  have "filter (\<lambda>v. checkCollisions conditions v = Inr True) block = []" by simp
  with assms(2) have "checkCollisions conditions cube \<noteq> Inr True"
    unfolding filter_empty_conv by blast
  moreover from filter_err_all_Inr [OF hit assms(2)]
  obtain b where "checkCollisions conditions cube = Inr b"
    by (metis sum.collapse(2))
  ultimately have "checkCollisions conditions cube = Inr False" by auto
  from checkCollisions_False [OF this assms(3)] show ?thesis .
qed

section \<open>Facts about the transitions\<close>

lemma cellNotNull_in_rows:
  "0 \<le> r \<Longrightarrow> r < int (length g) \<Longrightarrow> \<not> isl (cellNotNull g r c)"
  by (simp add: cellNotNull_def js_index_def split: option.splits)

lemma fall_check_total:
  assumes "int (length g) = NUM_OF_ROWS"
  shows "\<not> isl (checkBlockCollision [total checkCubeRowExceedsBoundaries, cantMoveDown g] blk)"
proof -
  let ?conds = "[total checkCubeRowExceedsBoundaries, cantMoveDown g]"
  have "\<not> isl (checkCollisions ?conds v)" for v
  proof (cases "checkCubeRowExceedsBoundaries v")
    case True
    then show ?thesis by (simp add: total_def ebind_def)
  next
    case False
    then have "0 \<le> grid_row v + 1" "grid_row v + 1 < int (length g)"
      using assms by (auto simp add: checkCubeRowExceedsBoundaries_def)
    from cellNotNull_in_rows [OF this] have "\<not> isl (cantMoveDown g v)"
      unfolding cantMoveDown_def .
    then obtain b where "cantMoveDown g v = Inr b"
      by (metis sum.collapse(2))
    with False show ?thesis by (simp add: total_def ebind_def)
  qed
  then have "\<not> isl (filter_err (checkCollisions ?conds) blk)"
    by (intro filter_err_total)
  then obtain ys where "filter_err (checkCollisions ?conds) blk = Inr ys"
    by (metis sum.collapse(2))
  then show ?thesis by (simp add: checkBlockCollision_def ebind_def)
qed

lemma Tick_apply_ended:
  assumes "gameEnd s" and "Tick_apply e s = Inr s'"
  shows "s' = s"
  using assms by (auto simp add: Tick_apply_def ebind_def split: sum.splits)

lemma Tick_apply_ended_returns:
  assumes "gameEnd s" and "int (length (grid s)) = NUM_OF_ROWS"
  shows "Tick_apply e s = Inr s"
proof -
  from fall_check_total [OF assms(2)] obtain b where
    "checkBlockCollision [total checkCubeRowExceedsBoundaries, cantMoveDown (grid s)] (activeBlock s) = Inr b"
    by (metis sum.collapse(2))
  with assms(1) show ?thesis by (simp add: Tick_apply_def ebind_def)
qed

lemma Move_apply_fields: "Move_apply d s = Inr s' \<Longrightarrow> \<exists>blk. s' = s\<lparr>activeBlock := blk\<rparr>"
  by (auto simp add: Move_apply_def ebind_def Let_def split: sum.splits)

lemma Rotate_apply_fields: "Rotate_apply d s = Inr s' \<Longrightarrow> \<exists>blk. s' = s\<lparr>activeBlock := blk\<rparr>"
proof (cases "find (\<lambda>cube. center cube = True) (activeBlock s)")
  case None
  assume "Rotate_apply d s = Inr s'"
  with None have "s' = s" by (simp add: Rotate_apply_def)
  moreover have "s = s\<lparr>activeBlock := activeBlock s\<rparr>" by simp
  ultimately show ?thesis by blast
next
  case (Some c)
  assume "Rotate_apply d s = Inr s'"
  with Some show ?thesis
    by (auto simp add: Rotate_apply_def ebind_def Let_def split: sum.splits)
qed

lemma Tick_apply_clearBlocks:
  assumes "Tick_apply e s = Inr s'"
  shows "clearBlocks s' = clearBlocks s
         \<or> (\<exists>deletingRows. deletingRows \<noteq> []
               \<and> getDeletingRows (setBlockInArray (grid s) (activeBlock s))
                     (getRecentlyPlacedRows (activeBlock s)) = Inr deletingRows
               \<and> clearBlocks s' = clearBlocks s
                     @ getRemovedCubes (setBlockInArray (grid s) (activeBlock s)) deletingRows)"
proof (cases "checkBlockCollision [total checkCubeRowExceedsBoundaries, cantMoveDown (grid s)]
                (activeBlock s)")
  case (Inl err)
  with assms show ?thesis by (simp add: Tick_apply_def ebind_def)
next
  case (Inr isCollision)
  show ?thesis
  proof (cases "gameEnd s")
    case True
    with Inr assms show ?thesis by (simp add: Tick_apply_def ebind_def)
  next
    case running: False
    show ?thesis
    proof (cases isCollision)
      case True
      with Inr running assms have "handleCollisions s = Inr s'"
        by (simp add: Tick_apply_def ebind_def)
      then show ?thesis
        by (auto simp add: handleCollisions_def ebind_def Let_def handleBlockClear_def
            split: sum.splits if_splits)
    next
      case False
      with Inr running assms show ?thesis
        by (cases "isColumnFilled (grid s)") (auto simp add: Tick_apply_def ebind_def)
    qed
  qed
qed

lemma Tick_apply_line_clear:
  assumes "Tick_apply e s = Inr s'"
    and "\<not> gameEnd s"
    and "checkBlockCollision [total checkCubeRowExceedsBoundaries, cantMoveDown (grid s)]
           (activeBlock s) = Inr True"
    and "getDeletingRows (setBlockInArray (grid s) (activeBlock s))
           (getRecentlyPlacedRows (activeBlock s)) = Inr deletingRows"
    and "deletingRows \<noteq> []"
  shows "clearBlocks s' = clearBlocks s
           @ getRemovedCubes (setBlockInArray (grid s) (activeBlock s)) deletingRows"
proof -
  from assms(1-3) have "handleCollisions s = Inr s'"
    by (simp add: Tick_apply_def ebind_def)
  with assms(4,5) show ?thesis
    by (auto simp add: handleCollisions_def ebind_def Let_def handleBlockClear_def
        split: sum.splits)
qed

lemma Tick_apply_no_line_clear:
  assumes "Tick_apply e s = Inr s'"
    and "gameEnd s
         \<or> checkBlockCollision [total checkCubeRowExceedsBoundaries, cantMoveDown (grid s)]
              (activeBlock s) = Inr False
         \<or> getDeletingRows (setBlockInArray (grid s) (activeBlock s))
              (getRecentlyPlacedRows (activeBlock s)) = Inr []"
  shows "clearBlocks s' = clearBlocks s"
proof (cases "checkBlockCollision [total checkCubeRowExceedsBoundaries, cantMoveDown (grid s)]
                (activeBlock s)")
  case (Inl err)
  with assms(1) show ?thesis by (simp add: Tick_apply_def ebind_def)
next
  case (Inr isCollision)
  show ?thesis
  proof (cases "gameEnd s")
    case True
    with Inr assms(1) show ?thesis by (simp add: Tick_apply_def ebind_def)
  next
    case running: False
    show ?thesis
    proof (cases isCollision)
      case True
      with Inr running assms(1) have hc: "handleCollisions s = Inr s'"
        by (simp add: Tick_apply_def ebind_def)
      from True Inr running assms(2)
      have "getDeletingRows (setBlockInArray (grid s) (activeBlock s))
              (getRecentlyPlacedRows (activeBlock s)) = Inr []" by simp
      with hc show ?thesis
        by (auto simp add: handleCollisions_def ebind_def Let_def split: sum.splits)
    next
      case False
      with Inr running assms(1) show ?thesis
        by (cases "isColumnFilled (grid s)") (auto simp add: Tick_apply_def ebind_def)
    qed
  qed
qed

lemma reduceState_Tick:
  assumes "reduceState s a = Some (Inr s')" and "isTickAction a"
  shows "if getElapsed a mod max (INITIAL_SPEED - level s * 10) MAX_SPEED = 0
         then Tick_apply (getElapsed a) s = Inr s' else s' = s"
proof -
  have "js_max (INITIAL_SPEED - level s * 10) MAX_SPEED = max (INITIAL_SPEED - level s * 10) MAX_SPEED"
    by (simp add: js_max_def max_def)
  with assms show ?thesis
    by (cases a) (auto simp add: reduceState_def Let_def smod_eq_0_iff split: if_splits)
qed

lemma Restart_apply_clearBlocks:
  assumes "Restart_apply s = Inr s'"
  shows "clearBlocks s' = (if gameEnd s
           then clearBlocks s @ filterNotNull (concat (grid s)) @ activeBlock s
           else clearBlocks s)"
  using assms
  by (auto simp add: Restart_apply_def ebind_def Let_def flatMap_def split: sum.splits if_splits)

subsection \<open>Facts about Drop\<close>

text \<open>
  Properties of the results of \<open>Drop.apply\<close> follow from the induction rule of the
  fixed point; that it returns at all is proved by induction on the distance of the first
  cube from the floor.
\<close>

lemma Drop_apply_fields_aux:
  assumes "Drop_apply s = Some r"
  shows "\<forall>s'. r = Inr s' \<longrightarrow> (\<exists>blk. s' = s\<lparr>activeBlock := blk\<rparr>)"
proof (rule Drop_apply.raw_induct
    [where P = "\<lambda>s r. \<forall>s'. r = Inr s' \<longrightarrow> (\<exists>blk. s' = s\<lparr>activeBlock := blk\<rparr>)", OF _ assms])
  fix f :: "State \<Rightarrow> (error + State) option" and state :: State and y :: "error + State"
  assume IH: "\<And>x y. f x = Some y \<Longrightarrow> \<forall>s'. y = Inr s' \<longrightarrow> (\<exists>blk. s' = x\<lparr>activeBlock := blk\<rparr>)"
    and body: "(let newState = state\<lparr>activeBlock := map (moveCube 1) (activeBlock state)\<rparr>
                in case canDrop (grid state) (activeBlock newState) of
                     Inl e \<Rightarrow> Some (Inl e)
                   | Inr ok \<Rightarrow> if ok then f newState else Some (Inr state)) = Some y"
  show "\<forall>s'. y = Inr s' \<longrightarrow> (\<exists>blk. s' = state\<lparr>activeBlock := blk\<rparr>)"
  proof (cases "canDrop (grid state) (map (moveCube 1) (activeBlock state))")
    case (Inl e)
    with body show ?thesis by (auto simp add: Let_def)
  next
    case (Inr ok)
    show ?thesis
    proof (cases ok)
      case True
      with Inr body have "f (state\<lparr>activeBlock := map (moveCube 1) (activeBlock state)\<rparr>) = Some y"
        by (simp add: Let_def)
      from IH [OF this] show ?thesis by simp
    next
      case False
      with Inr body have "y = Inr state" by (simp add: Let_def)
      moreover have "state = state\<lparr>activeBlock := activeBlock state\<rparr>" by simp
      ultimately show ?thesis by blast
    qed
  qed
qed

lemma Drop_apply_fields:
  "Drop_apply s = Some (Inr s') \<Longrightarrow> \<exists>blk. s' = s\<lparr>activeBlock := blk\<rparr>"
  using Drop_apply_fields_aux by blast

lemma canDrop_rows:
  assumes "canDrop g blk = Inr True" and "c \<in> set blk"
  shows "0 \<le> grid_row c \<and> grid_row c < NUM_OF_ROWS - 1"
proof -
  let ?conds = "[total checkCubeRowExceedsBoundaries, cantMoveDown g]"
  from assms(1) obtain hit where hit: "filter_err (checkCollisions ?conds) blk = Inr hit" and "hit = []"
    by (auto simp add: canDrop_def checkBlockCollision_def ebind_def split: sum.splits)
  with filter_err_Inr [OF hit]
  have "filter (\<lambda>v. checkCollisions ?conds v = Inr True) blk = []" by simp
  with assms(2) have "checkCollisions ?conds c \<noteq> Inr True"
    unfolding filter_empty_conv by blast
  then have "\<not> checkCubeRowExceedsBoundaries c"
    by (auto simp add: total_def ebind_def)
  then show ?thesis
    by (simp add: checkCubeRowExceedsBoundaries_def)
qed

lemma Drop_apply_returns:
  assumes "activeBlock s \<noteq> []"
  shows "\<exists>r. Drop_apply s = Some r"
  using assms
proof (induction "nat (NUM_OF_ROWS - grid_row (hd (activeBlock s)))" arbitrary: s rule: less_induct)
  case less
  let ?moved = "s\<lparr>activeBlock := map (moveCube 1) (activeBlock s)\<rparr>"
  show ?case
  proof (cases "canDrop (grid s) (map (moveCube 1) (activeBlock s))")
    case (Inl e)
    then show ?thesis by (subst Drop_apply.simps) (simp add: Let_def)
  next
    case (Inr ok)
    show ?thesis
    proof (cases ok)
      case False
      with Inr show ?thesis by (subst Drop_apply.simps) (simp add: Let_def)
    next
      case True
      from less.prems have "moveCube 1 (hd (activeBlock s)) \<in> set (map (moveCube 1) (activeBlock s))"
        by simp
      moreover from Inr True have "canDrop (grid s) (map (moveCube 1) (activeBlock s)) = Inr True"
        by simp
      ultimately have "grid_row (moveCube 1 (hd (activeBlock s))) < NUM_OF_ROWS - 1"
        using canDrop_rows by blast
      then have "grid_row (hd (activeBlock s)) + 1 < NUM_OF_ROWS - 1"
        by (simp add: moveCube_def)
      moreover have "hd (activeBlock ?moved) = moveCube 1 (hd (activeBlock s))"
        using less.prems by (simp add: hd_map)
      ultimately have "nat (NUM_OF_ROWS - grid_row (hd (activeBlock ?moved)))
                       < nat (NUM_OF_ROWS - grid_row (hd (activeBlock s)))"
        by (simp add: moveCube_def)
      moreover have "activeBlock ?moved \<noteq> []" using less.prems by simp
      ultimately obtain r where "Drop_apply ?moved = Some r"
        using less.hyps by blast
      with Inr True show ?thesis by (subst Drop_apply.simps) (simp add: Let_def)
    qed
  qed
qed

lemma Drop_apply_stops_aux:
  assumes "Drop_apply s = Some r"
  shows "\<forall>s'. r = Inr s' \<longrightarrow> canDrop (grid s') (map (moveCube 1) (activeBlock s')) = Inr False"
proof (rule Drop_apply.raw_induct
    [where P = "\<lambda>s r. \<forall>s'. r = Inr s' \<longrightarrow>
                  canDrop (grid s') (map (moveCube 1) (activeBlock s')) = Inr False", OF _ assms])
  fix f :: "State \<Rightarrow> (error + State) option" and state :: State and y :: "error + State"
  assume IH: "\<And>x y. f x = Some y \<Longrightarrow> \<forall>s'. y = Inr s' \<longrightarrow>
                 canDrop (grid s') (map (moveCube 1) (activeBlock s')) = Inr False"
    and body: "(let newState = state\<lparr>activeBlock := map (moveCube 1) (activeBlock state)\<rparr>
                in case canDrop (grid state) (activeBlock newState) of
                     Inl e \<Rightarrow> Some (Inl e)
                   | Inr ok \<Rightarrow> if ok then f newState else Some (Inr state)) = Some y"
  show "\<forall>s'. y = Inr s' \<longrightarrow> canDrop (grid s') (map (moveCube 1) (activeBlock s')) = Inr False"
  proof (cases "canDrop (grid state) (map (moveCube 1) (activeBlock state))")
    case (Inl e)
    with body show ?thesis by (auto simp add: Let_def)
  next
    case (Inr ok)
    show ?thesis
    proof (cases ok)
      case True
      with Inr body have "f (state\<lparr>activeBlock := map (moveCube 1) (activeBlock state)\<rparr>) = Some y"
        by (simp add: Let_def)
      from IH [OF this] show ?thesis .
    next
      case False
      with Inr body have "y = Inr state" by (simp add: Let_def)
      with Inr False show ?thesis by simp
    qed
  qed
qed

lemma Drop_apply_stops:
  "Drop_apply s = Some (Inr s') \<Longrightarrow> canDrop (grid s') (map (moveCube 1) (activeBlock s')) = Inr False"
  using Drop_apply_stops_aux by blast

lemma canDrop_True_iff:
  "canDrop g block = Inr True
   \<longleftrightarrow> checkBlockCollision [total checkCubeRowExceedsBoundaries, cantMoveDown g] block = Inr False"
  by (auto simp add: canDrop_def ebind_def split: sum.splits)

text \<open>
  Where Drop moves the block at all, the block it returns passes the collision test of
  \<open>Tick.apply\<close>: the next Tick moves it further down.
\<close>

lemma Drop_apply_never_rests_aux:
  assumes "Drop_apply s = Some r"
  shows "\<forall>s'. r = Inr s' \<longrightarrow> s' = s
           \<or> checkBlockCollision [total checkCubeRowExceedsBoundaries, cantMoveDown (grid s')]
                (activeBlock s') = Inr False"
proof (rule Drop_apply.raw_induct
    [where P = "\<lambda>s r. \<forall>s'. r = Inr s' \<longrightarrow> s' = s
           \<or> checkBlockCollision [total checkCubeRowExceedsBoundaries, cantMoveDown (grid s')]
                (activeBlock s') = Inr False", OF _ assms])
  fix f :: "State \<Rightarrow> (error + State) option" and state :: State and y :: "error + State"
  assume IH: "\<And>x y. f x = Some y \<Longrightarrow> \<forall>s'. y = Inr s' \<longrightarrow> s' = x
           \<or> checkBlockCollision [total checkCubeRowExceedsBoundaries, cantMoveDown (grid s')]
                (activeBlock s') = Inr False"
    and body: "(let newState = state\<lparr>activeBlock := map (moveCube 1) (activeBlock state)\<rparr>
                in case canDrop (grid state) (activeBlock newState) of
                     Inl e \<Rightarrow> Some (Inl e)
                   | Inr ok \<Rightarrow> if ok then f newState else Some (Inr state)) = Some y"
  let ?new = "state\<lparr>activeBlock := map (moveCube 1) (activeBlock state)\<rparr>"
  show "\<forall>s'. y = Inr s' \<longrightarrow> s' = state
           \<or> checkBlockCollision [total checkCubeRowExceedsBoundaries, cantMoveDown (grid s')]
                (activeBlock s') = Inr False"
  proof (cases "canDrop (grid state) (map (moveCube 1) (activeBlock state))")
    case (Inl e)
    with body show ?thesis by (auto simp add: Let_def)
  next
    case (Inr ok)
    show ?thesis
    proof (cases ok)
      case False
      with Inr body have "y = Inr state" by (simp add: Let_def)
      then show ?thesis by simp
    next
      case True
      with Inr body have step: "f ?new = Some y" by (simp add: Let_def)
      from Inr True have "canDrop (grid state) (map (moveCube 1) (activeBlock state)) = Inr True"
        by simp
      then have free: "checkBlockCollision [total checkCubeRowExceedsBoundaries, cantMoveDown (grid ?new)]
                (activeBlock ?new) = Inr False"
        by (simp add: canDrop_True_iff)
      show ?thesis
      proof (intro allI impI)
        fix s' assume "y = Inr s'"
        with IH [OF step] have "s' = ?new
           \<or> checkBlockCollision [total checkCubeRowExceedsBoundaries, cantMoveDown (grid s')]
                (activeBlock s') = Inr False" by blast
        with free show "s' = state
           \<or> checkBlockCollision [total checkCubeRowExceedsBoundaries, cantMoveDown (grid s')]
                (activeBlock s') = Inr False" by auto
      qed
    qed
  qed
qed

lemma Drop_apply_never_rests:
  "Drop_apply s = Some (Inr s') \<Longrightarrow> s' = s
     \<or> checkBlockCollision [total checkCubeRowExceedsBoundaries, cantMoveDown (grid s')]
          (activeBlock s') = Inr False"
  using Drop_apply_never_rests_aux by blast

section \<open>The active block stays inside the grid\<close>

text \<open>
  Every transition that returns keeps the cubes of the active block inside the grid: a new
  block spawns in rows 0 and 1, columns 4 to 7, and a block is moved or rotated only after
  the boundary predicates have passed.
\<close>

lemma createBlock_inGrid:
  assumes "createBlock tetriminoType cubeCount = Inr block"
  shows "blockInGrid block"
proof -
  from assms consider "tetriminoType = ''I''" | "tetriminoType = ''J''" | "tetriminoType = ''L''"
    | "tetriminoType = ''O''" | "tetriminoType = ''S''" | "tetriminoType = ''T''" | "tetriminoType = ''Z''"
    by (auto simp add: createBlock_def tetriminoLayouts_def split: if_splits)
  then show ?thesis
  proof cases
    case 1
    with assms show ?thesis
      by (auto simp add: createBlock_def tetriminoLayouts_def flatMap_def enumerate_eq_zip
          createCube_def blockInGrid_def cubeInGrid_def NUM_OF_ROWS_eq NUM_OF_COLUMNS_eq COL_MIDPOINT_eq
          one_enat_def zero_enat_def Let_def)
  next
    case 2
    with assms show ?thesis
      by (auto simp add: createBlock_def tetriminoLayouts_def flatMap_def enumerate_eq_zip
          createCube_def blockInGrid_def cubeInGrid_def NUM_OF_ROWS_eq NUM_OF_COLUMNS_eq COL_MIDPOINT_eq
          one_enat_def zero_enat_def Let_def)
  next
    case 3
    with assms show ?thesis
      by (auto simp add: createBlock_def tetriminoLayouts_def flatMap_def enumerate_eq_zip
          createCube_def blockInGrid_def cubeInGrid_def NUM_OF_ROWS_eq NUM_OF_COLUMNS_eq COL_MIDPOINT_eq
          one_enat_def zero_enat_def Let_def)
  next
    case 4
    with assms show ?thesis
      by (auto simp add: createBlock_def tetriminoLayouts_def flatMap_def enumerate_eq_zip
          createCube_def blockInGrid_def cubeInGrid_def NUM_OF_ROWS_eq NUM_OF_COLUMNS_eq COL_MIDPOINT_eq
          one_enat_def zero_enat_def Let_def)
  next
    case 5
    with assms show ?thesis
      by (auto simp add: createBlock_def tetriminoLayouts_def flatMap_def enumerate_eq_zip
          createCube_def blockInGrid_def cubeInGrid_def NUM_OF_ROWS_eq NUM_OF_COLUMNS_eq COL_MIDPOINT_eq
          one_enat_def zero_enat_def Let_def)
  next
    case 6
    with assms show ?thesis
      by (auto simp add: createBlock_def tetriminoLayouts_def flatMap_def enumerate_eq_zip
          createCube_def blockInGrid_def cubeInGrid_def NUM_OF_ROWS_eq NUM_OF_COLUMNS_eq COL_MIDPOINT_eq
          one_enat_def zero_enat_def Let_def)
  next
    case 7
    with assms show ?thesis
      by (auto simp add: createBlock_def tetriminoLayouts_def flatMap_def enumerate_eq_zip
          createCube_def blockInGrid_def cubeInGrid_def NUM_OF_ROWS_eq NUM_OF_COLUMNS_eq COL_MIDPOINT_eq
          one_enat_def zero_enat_def Let_def)
  qed
qed

lemma moved_inGrid:
  assumes "blockInGrid block"
    and "\<And>cube. cube \<in> set block \<Longrightarrow> \<not> checkCubeRowExceedsBoundaries cube"
  shows "blockInGrid (map (moveCube 1) block)"
proof -
  have "cubeInGrid (moveCube 1 cube)" if c: "cube \<in> set block" for cube
  proof -
    from assms(1) c have "cubeInGrid cube" by (simp add: blockInGrid_def list_all_iff)
    with assms(2) [OF c] show ?thesis
      by (simp add: cubeInGrid_def moveCube_def checkCubeRowExceedsBoundaries_def)
  qed
  then show ?thesis by (simp add: blockInGrid_def list_all_iff)
qed

lemma handleCollisions_block:
  assumes "handleCollisions s = Inr s'"
  shows "activeBlock s' = activeBlock s
         \<or> createBlock (shapePreview s) (TETRIMINO_SIZE + objCount s) = Inr (activeBlock s')"
  using assms
  by (auto simp add: handleCollisions_def ebind_def Let_def handleBlockClear_def
      split: sum.splits if_splits)

lemma Tick_apply_inGrid:
  assumes "blockInGrid (activeBlock s)" and "Tick_apply e s = Inr s'"
  shows "blockInGrid (activeBlock s')"
proof (cases "checkBlockCollision [total checkCubeRowExceedsBoundaries, cantMoveDown (grid s)]
                (activeBlock s)")
  case (Inl err)
  with assms(2) show ?thesis by (simp add: Tick_apply_def ebind_def)
next
  case (Inr isCollision)
  show ?thesis
  proof (cases "gameEnd s")
    case True
    with Inr assms show ?thesis by (simp add: Tick_apply_def ebind_def)
  next
    case running: False
    show ?thesis
    proof (cases isCollision)
      case True
      with Inr running assms(2) have "handleCollisions s = Inr s'"
        by (simp add: Tick_apply_def ebind_def)
      from handleCollisions_block [OF this] assms(1) createBlock_inGrid show ?thesis by auto
    next
      case False
      from Inr False
      have free: "checkBlockCollision [total checkCubeRowExceedsBoundaries, cantMoveDown (grid s)]
                (activeBlock s) = Inr False" by simp
      have "\<not> checkCubeRowExceedsBoundaries cube" if "cube \<in> set (activeBlock s)" for cube
        using checkBlockCollision_False [OF free that, of "total checkCubeRowExceedsBoundaries"]
        by (simp add: total_def)
      from moved_inGrid [OF assms(1) this]
      have "blockInGrid (map (moveCube 1) (activeBlock s))" by simp
      with False Inr running assms(2) show ?thesis
        by (cases "isColumnFilled (grid s)") (auto simp add: Tick_apply_def ebind_def)
    qed
  qed
qed

lemma Move_apply_inGrid:
  assumes "blockInGrid (activeBlock s)" and "direction = 1 \<or> direction = - 1"
    and "Move_apply direction s = Inr s'"
  shows "blockInGrid (activeBlock s')"
proof -
  let ?cond = "\<lambda>cube. if direction > 0 then cantMoveRight (grid s) cube else cantMoveLeft (grid s) cube"
  from assms(3) obtain blocked where b: "checkBlockCollision [?cond] (activeBlock s) = Inr blocked"
    and s': "s' = s\<lparr>activeBlock := (if blocked then activeBlock s
                                   else map (updateCubeX direction) (activeBlock s))\<rparr>"
    by (auto simp add: Move_apply_def ebind_def Let_def split: sum.splits)
  show ?thesis
  proof (cases blocked)
    case True
    with s' assms(1) show ?thesis by simp
  next
    case False
    from b False have b': "checkBlockCollision [?cond] (activeBlock s) = Inr False" by simp
    have free: "?cond cube = Inr False" if "cube \<in> set (activeBlock s)" for cube
      using checkBlockCollision_False [OF b' that, of ?cond] by simp
    have "cubeInGrid (updateCubeX direction cube)" if c: "cube \<in> set (activeBlock s)" for cube
    proof -
      from assms(1) c have "cubeInGrid cube" by (simp add: blockInGrid_def list_all_iff)
      with free [OF c] assms(2) show ?thesis
        by (auto simp add: cubeInGrid_def updateCubeX_def cantMoveRight_def cantMoveLeft_def
            NUM_OF_COLUMNS_eq split: if_splits)
    qed
    with False s' show ?thesis by (simp add: blockInGrid_def list_all_iff)
  qed
qed

lemma Restart_apply_inGrid:
  assumes "blockInGrid (activeBlock s)" and "Restart_apply s = Inr s'"
  shows "blockInGrid (activeBlock s')"
proof (cases "gameEnd s")
  case False
  with assms show ?thesis by (simp add: Restart_apply_def Let_def)
next
  case True
  with assms(2) obtain block where
    "createBlock (randomTetriminoType s) (objCount s + TETRIMINO_SIZE) = Inr block"
    "activeBlock s' = block"
    by (auto simp add: Restart_apply_def Let_def ebind_def split: sum.splits)
  with createBlock_inGrid show ?thesis by blast
qed

lemma Rotate_apply_inGrid:
  assumes "blockInGrid (activeBlock s)" and "Rotate_apply dir s = Inr s'"
  shows "blockInGrid (activeBlock s')"
proof (cases "find (\<lambda>cube. center cube = True) (activeBlock s)")
  case None
  with assms show ?thesis by (simp add: Rotate_apply_def)
next
  case (Some c)
  let ?new = "map (rotateCube dir c) (activeBlock s)"
  from Some assms(2) obtain ok where ok: "canRotate (grid s) ?new = Inr ok"
    and s': "s' = s\<lparr>activeBlock := (if ok then ?new else activeBlock s)\<rparr>"
    by (auto simp add: Rotate_apply_def Let_def ebind_def split: sum.splits)
  show ?thesis
  proof (cases ok)
    case False
    with s' assms(1) show ?thesis by simp
  next
    case True
    with ok have col: "checkBlockCollision [checkCurrentCell (grid s), total checkCubeRowExceedsBoundaries,
                                 total checkCubeColExceedsBoundaries] ?new = Inr False"
      by (auto simp add: canRotate_def ebind_def split: sum.splits)
    have "cubeInGrid cube" if "cube \<in> set ?new" for cube
      using checkBlockCollision_False [OF col that, of "total checkCubeRowExceedsBoundaries"]
        checkBlockCollision_False [OF col that, of "total checkCubeColExceedsBoundaries"]
      by (simp add: total_def cubeInGrid_def checkCubeRowExceedsBoundaries_def
          checkCubeColExceedsBoundaries_def)
    with True s' show ?thesis by (simp add: blockInGrid_def list_all_iff)
  qed
qed

lemma Drop_apply_inGrid_aux:
  assumes "Drop_apply s = Some r"
  shows "\<forall>s'. r = Inr s' \<longrightarrow> blockInGrid (activeBlock s) \<longrightarrow> blockInGrid (activeBlock s')"
proof (rule Drop_apply.raw_induct
    [where P = "\<lambda>s r. \<forall>s'. r = Inr s' \<longrightarrow> blockInGrid (activeBlock s)
                  \<longrightarrow> blockInGrid (activeBlock s')", OF _ assms])
  fix f :: "State \<Rightarrow> (error + State) option" and state :: State and y :: "error + State"
  assume IH: "\<And>x y. f x = Some y \<Longrightarrow> \<forall>s'. y = Inr s' \<longrightarrow> blockInGrid (activeBlock x)
                 \<longrightarrow> blockInGrid (activeBlock s')"
    and body: "(let newState = state\<lparr>activeBlock := map (moveCube 1) (activeBlock state)\<rparr>
                in case canDrop (grid state) (activeBlock newState) of
                     Inl e \<Rightarrow> Some (Inl e)
                   | Inr ok \<Rightarrow> if ok then f newState else Some (Inr state)) = Some y"
  let ?moved = "map (moveCube 1) (activeBlock state)"
  show "\<forall>s'. y = Inr s' \<longrightarrow> blockInGrid (activeBlock state) \<longrightarrow> blockInGrid (activeBlock s')"
  proof (cases "canDrop (grid state) ?moved")
    case (Inl e)
    with body show ?thesis by (auto simp add: Let_def)
  next
    case (Inr ok)
    show ?thesis
    proof (cases ok)
      case False
      with Inr body have "y = Inr state" by (simp add: Let_def)
      then show ?thesis by simp
    next
      case True
      with Inr body have step: "f (state\<lparr>activeBlock := ?moved\<rparr>) = Some y"
        by (simp add: Let_def)
      from Inr True have cd: "canDrop (grid state) ?moved = Inr True" by simp
      have "blockInGrid ?moved" if inside: "blockInGrid (activeBlock state)"
      proof -
        have "cubeInGrid (moveCube 1 cube)" if c: "cube \<in> set (activeBlock state)" for cube
        proof -
          from inside c have "cubeInGrid cube" by (simp add: blockInGrid_def list_all_iff)
          moreover from c have "moveCube 1 cube \<in> set ?moved" by simp
          from canDrop_rows [OF cd this] have "grid_row cube + 1 < NUM_OF_ROWS - 1"
            by (simp add: moveCube_def)
          ultimately show ?thesis by (simp add: cubeInGrid_def moveCube_def)
        qed
        then show ?thesis by (simp add: blockInGrid_def list_all_iff)
      qed
      with IH [OF step] show ?thesis by simp
    qed
  qed
qed

lemma reduceState_inGrid:
  assumes "blockInGrid (activeBlock s)" and "emitted action"
    and "reduceState s action = Some (Inr s')"
  shows "blockInGrid (activeBlock s')"
proof (cases action)
  case (GenerateBlock i)
  with assms show ?thesis by (auto simp add: reduceState_def GenerateBlock_apply_def)
next
  case (Tick e)
  with assms(3) have "s' = s \<or> Tick_apply e s = Inr s'"
    by (auto simp add: reduceState_def Let_def split: if_splits)
  with assms(1) Tick_apply_inGrid show ?thesis by blast
next
  case (Move d)
  with assms(3) have "Move_apply d s = Inr s'" by (simp add: reduceState_def)
  with Move assms(1,2) Move_apply_inGrid show ?thesis by auto
next
  case Restart
  with assms(3) have "Restart_apply s = Inr s'" by (simp add: reduceState_def)
  with assms(1) Restart_apply_inGrid show ?thesis by blast
next
  case (Rotate d)
  with assms(3) have "Rotate_apply d s = Inr s'" by (simp add: reduceState_def)
  with assms(1) Rotate_apply_inGrid show ?thesis by blast
next
  case Drop
  with assms(3) have "Drop_apply s = Some (Inr s')" by (simp add: reduceState_def)
  with assms(1) Drop_apply_inGrid_aux show ?thesis by blast
qed

lemma startingBlock_inGrid: "blockInGrid (activeBlock initialState)"
proof -
  have "createBlock ''O'' 4 = Inr startingBlock"
    by (simp add: startingBlock_def createBlock_def tetriminoLayouts_def)
  from createBlock_inGrid [OF this] show ?thesis by (simp add: initialState_def)
qed

lemma reachable_inGrid: "reachable s \<Longrightarrow> blockInGrid (activeBlock s)"
proof (induction rule: reachable.induct)
  case initial
  show ?case by (rule startingBlock_inGrid)
next
  case (step s action s')
  from reduceState_inGrid [OF step.IH step.hyps(2,3)] show ?case .
qed

section \<open>C1: actions on an ended game\<close>

text \<open>
  C1, as the code has it: in a state with the game ended, a Tick through the reducer returns
  the state unchanged (the grid having its \<open>rowCount\<close> rows), GenerateBlock returns the
  state with the staged random shape replaced, and every action other than Restart that
  returns leaves \<open>gameEnd\<close>, the grid, the score, the high score, the level, the preview,
  \<open>clearBlocks\<close> and the object counter as they were.
\<close>

theorem ended_state_actions:
  assumes "gameEnd s"
  shows "(int (length (grid s)) = NUM_OF_ROWS \<longrightarrow> reduceState s (Tick e) = Some (Inr s))
     \<and> reduceState s (GenerateBlock i) = Some (Inr (GenerateBlock_apply i s))
     \<and> (a \<noteq> Restart \<and> reduceState s a = Some (Inr s') \<longrightarrow>
          gameEnd s' \<and> grid s' = grid s \<and> score s' = score s \<and> highScore s' = highScore s
          \<and> level s' = level s \<and> shapePreview s' = shapePreview s
          \<and> clearBlocks s' = clearBlocks s \<and> objCount s' = objCount s
          \<and> (isTickAction a \<longrightarrow> s' = s))"
proof -
  have t: "reduceState s (Tick e) = Some (Inr s)" if "int (length (grid s)) = NUM_OF_ROWS"
    using Tick_apply_ended_returns [OF assms that] by (simp add: reduceState_def Let_def)
  have g: "reduceState s (GenerateBlock i) = Some (Inr (GenerateBlock_apply i s))"
    by (simp add: reduceState_def)
  have r: "gameEnd s' \<and> grid s' = grid s \<and> score s' = score s \<and> highScore s' = highScore s
          \<and> level s' = level s \<and> shapePreview s' = shapePreview s
          \<and> clearBlocks s' = clearBlocks s \<and> objCount s' = objCount s
          \<and> (isTickAction a \<longrightarrow> s' = s)"
    if ne: "a \<noteq> Restart" and red: "reduceState s a = Some (Inr s')"
  proof (cases a)
    case (GenerateBlock j)
    with red assms show ?thesis by (auto simp add: reduceState_def GenerateBlock_apply_def)
  next
    case (Tick el)
    with red have "s' = s \<or> Tick_apply el s = Inr s'"
      by (auto simp add: reduceState_def Let_def split: if_splits)
    with Tick_apply_ended [OF assms] have "s' = s" by blast
    with assms show ?thesis by simp
  next
    case (Move d)
    with red have "Move_apply d s = Inr s'" by (simp add: reduceState_def)
    from Move_apply_fields [OF this] assms Move show ?thesis by auto
  next
    case Restart
    with ne show ?thesis by simp
  next
    case (Rotate d)
    with red have "Rotate_apply d s = Inr s'" by (simp add: reduceState_def)
    from Rotate_apply_fields [OF this] assms Rotate show ?thesis by auto
  next
    case Drop
    with red have "Drop_apply s = Some (Inr s')" by (simp add: reduceState_def)
    from Drop_apply_fields [OF this] assms Drop show ?thesis by auto
  qed
  from t g r show ?thesis by blast
qed

text \<open>C1 at the ended initial state.\<close>

theorem ended_state_actions_witness:
  "gameEnd endedState \<and> int (length (grid endedState)) = NUM_OF_ROWS
   \<and> reduceState endedState (Tick 0) = Some (Inr endedState)
   \<and> reduceState endedState (GenerateBlock 0) = Some (Inr (endedState\<lparr>randomTetriminoType := ''I''\<rparr>))
   \<and> reduceState endedState (Move 1) = Some (Inr (endedState\<lparr>activeBlock := map (updateCubeX 1) (activeBlock endedState)\<rparr>))
   \<and> gameEnd (endedState\<lparr>activeBlock := map (updateCubeX 1) (activeBlock endedState)\<rparr>)"
proof -
  have a: "gameEnd endedState" by code_simp
  have b: "int (length (grid endedState)) = NUM_OF_ROWS" by code_simp
  have c: "GenerateBlock_apply 0 endedState = endedState\<lparr>randomTetriminoType := ''I''\<rparr>"
    by code_simp
  have d: "reduceState endedState (Move 1) = Some (Inr (endedState\<lparr>activeBlock := map (updateCubeX 1) (activeBlock endedState)\<rparr>))"
    by code_simp
  note th = ended_state_actions [OF a, of 0 0 "Move 1"
      "endedState\<lparr>activeBlock := map (updateCubeX 1) (activeBlock endedState)\<rparr>"]
  have ne: "Move 1 \<noteq> Restart" by simp
  note t = th [THEN conjunct1, THEN mp, OF b]
  note g = th [THEN conjunct2, THEN conjunct1, unfolded c]
  note m = th [THEN conjunct2, THEN conjunct2, THEN mp, OF conjI [OF ne d], THEN conjunct1]
  show ?thesis
    by (intro conjI) (fact a b t g d m)+
qed

text \<open>
  C1 as stated fails: in the ended initial state, GenerateBlock 0 and Move 1 both return a
  state different from the input.
\<close>

theorem ended_state_not_frozen:
  "gameEnd endedState
   \<and> reduceState endedState (GenerateBlock 0) \<noteq> Some (Inr endedState)
   \<and> reduceState endedState (Move 1) \<noteq> Some (Inr endedState)"
  by code_simp

section \<open>C2: the list of removed cubes\<close>

text \<open>
  C2, as the code has it: no transition clears \<open>clearBlocks\<close>. The list of the input
  state is a prefix of the list of the result. GenerateBlock, Move, Rotate and Drop leave
  it as it is, and a Restart of an ended game appends every cube of the grid and the old
  active block. A Tick that clears lines (it passes the speed gate, the game is not ended,
  the active block collides, and the rows \<open>cleared\<close> that the block completes are not
  empty) appends the cubes of the cleared rows; every other Tick (held back by the gate, on
  an ended game, on a block that still falls, or locking a block that completes no row)
  leaves it as it is.
\<close>

theorem clearBlocks_accumulates:
  assumes "reduceState s a = Some (Inr s')"
  shows "prefix (clearBlocks s) (clearBlocks s')
     \<and> (\<not> isTickAction a \<and> a \<noteq> Restart \<longrightarrow> clearBlocks s' = clearBlocks s)
     \<and> (a = Restart \<longrightarrow> clearBlocks s' = (if gameEnd s
           then clearBlocks s @ filterNotNull (concat (grid s)) @ activeBlock s
           else clearBlocks s))
     \<and> (isTickAction a \<longrightarrow> clearBlocks s' = clearBlocks s
         \<or> (\<exists>deletingRows. deletingRows \<noteq> []
               \<and> getDeletingRows (setBlockInArray (grid s) (activeBlock s))
                     (getRecentlyPlacedRows (activeBlock s)) = Inr deletingRows
               \<and> clearBlocks s' = clearBlocks s
                     @ getRemovedCubes (setBlockInArray (grid s) (activeBlock s)) deletingRows))
     \<and> (isTickAction a
          \<and> getElapsed a mod max (INITIAL_SPEED - level s * 10) MAX_SPEED = 0
          \<and> \<not> gameEnd s
          \<and> checkBlockCollision [total checkCubeRowExceedsBoundaries, cantMoveDown (grid s)]
                (activeBlock s) = Inr True
          \<and> getDeletingRows (setBlockInArray (grid s) (activeBlock s))
                (getRecentlyPlacedRows (activeBlock s)) = Inr cleared
          \<and> cleared \<noteq> []
        \<longrightarrow> clearBlocks s' = clearBlocks s
              @ getRemovedCubes (setBlockInArray (grid s) (activeBlock s)) cleared)
     \<and> (isTickAction a
          \<and> (getElapsed a mod max (INITIAL_SPEED - level s * 10) MAX_SPEED \<noteq> 0
               \<or> gameEnd s
               \<or> checkBlockCollision [total checkCubeRowExceedsBoundaries, cantMoveDown (grid s)]
                    (activeBlock s) = Inr False
               \<or> getDeletingRows (setBlockInArray (grid s) (activeBlock s))
                    (getRecentlyPlacedRows (activeBlock s)) = Inr [])
        \<longrightarrow> clearBlocks s' = clearBlocks s)"
proof (cases a)
  case (GenerateBlock j)
  with assms show ?thesis by (auto simp add: reduceState_def GenerateBlock_apply_def)
next
  case (Tick el)
  then have tick: "isTickAction a" and el: "getElapsed a = el" by simp_all
  note gate = reduceState_Tick [OF assms tick, unfolded el]
  from gate have "s' = s \<or> Tick_apply el s = Inr s'" by (auto split: if_splits)
  with Tick_apply_clearBlocks [of el s s']
  have *: "clearBlocks s' = clearBlocks s
         \<or> (\<exists>deletingRows. deletingRows \<noteq> []
               \<and> getDeletingRows (setBlockInArray (grid s) (activeBlock s))
                     (getRecentlyPlacedRows (activeBlock s)) = Inr deletingRows
               \<and> clearBlocks s' = clearBlocks s
                     @ getRemovedCubes (setBlockInArray (grid s) (activeBlock s)) deletingRows)"
    by blast
  then have p: "prefix (clearBlocks s) (clearBlocks s')" by auto
  have clear: "el mod max (INITIAL_SPEED - level s * 10) MAX_SPEED = 0
          \<and> \<not> gameEnd s
          \<and> checkBlockCollision [total checkCubeRowExceedsBoundaries, cantMoveDown (grid s)]
                (activeBlock s) = Inr True
          \<and> getDeletingRows (setBlockInArray (grid s) (activeBlock s))
                (getRecentlyPlacedRows (activeBlock s)) = Inr cleared
          \<and> cleared \<noteq> []
        \<longrightarrow> clearBlocks s' = clearBlocks s
              @ getRemovedCubes (setBlockInArray (grid s) (activeBlock s)) cleared"
  proof (intro impI, elim conjE)
    assume that: "el mod max (INITIAL_SPEED - level s * 10) MAX_SPEED = 0" "\<not> gameEnd s"
      "checkBlockCollision [total checkCubeRowExceedsBoundaries, cantMoveDown (grid s)]
         (activeBlock s) = Inr True"
      "getDeletingRows (setBlockInArray (grid s) (activeBlock s))
         (getRecentlyPlacedRows (activeBlock s)) = Inr cleared"
      "cleared \<noteq> []"
    from gate that(1) have "Tick_apply el s = Inr s'" by simp
    from Tick_apply_line_clear [OF this that(2-5)]
    show "clearBlocks s' = clearBlocks s
              @ getRemovedCubes (setBlockInArray (grid s) (activeBlock s)) cleared" .
  qed
  have keep: "el mod max (INITIAL_SPEED - level s * 10) MAX_SPEED \<noteq> 0
        \<or> gameEnd s
        \<or> checkBlockCollision [total checkCubeRowExceedsBoundaries, cantMoveDown (grid s)]
             (activeBlock s) = Inr False
        \<or> getDeletingRows (setBlockInArray (grid s) (activeBlock s))
             (getRecentlyPlacedRows (activeBlock s)) = Inr []
        \<longrightarrow> clearBlocks s' = clearBlocks s"
  proof (intro impI)
    assume that: "el mod max (INITIAL_SPEED - level s * 10) MAX_SPEED \<noteq> 0
        \<or> gameEnd s
        \<or> checkBlockCollision [total checkCubeRowExceedsBoundaries, cantMoveDown (grid s)]
             (activeBlock s) = Inr False
        \<or> getDeletingRows (setBlockInArray (grid s) (activeBlock s))
             (getRecentlyPlacedRows (activeBlock s)) = Inr []"
    show "clearBlocks s' = clearBlocks s"
    proof (cases "el mod max (INITIAL_SPEED - level s * 10) MAX_SPEED = 0")
      case True
      with gate have t: "Tick_apply el s = Inr s'" by simp
      from that True have "gameEnd s
          \<or> checkBlockCollision [total checkCubeRowExceedsBoundaries, cantMoveDown (grid s)]
               (activeBlock s) = Inr False
          \<or> getDeletingRows (setBlockInArray (grid s) (activeBlock s))
               (getRecentlyPlacedRows (activeBlock s)) = Inr []" by simp
      from Tick_apply_no_line_clear [OF t this] show ?thesis .
    next
      case False
      with gate show ?thesis by simp
    qed
  qed
  show ?thesis
    unfolding Tick isTickAction.simps getElapsed.simps
    by (intro conjI impI) (use p * clear keep in \<open>simp_all only: simp_thms Action.distinct\<close>)
next
  case (Move d)
  with assms have "Move_apply d s = Inr s'" by (simp add: reduceState_def)
  from Move_apply_fields [OF this] Move show ?thesis by auto
next
  case Restart
  with assms have "Restart_apply s = Inr s'" by (simp add: reduceState_def)
  from Restart_apply_clearBlocks [OF this] Restart show ?thesis by simp
next
  case (Rotate d)
  with assms have "Rotate_apply d s = Inr s'" by (simp add: reduceState_def)
  from Rotate_apply_fields [OF this] Rotate show ?thesis by auto
next
  case Drop
  with assms have "Drop_apply s = Some (Inr s')" by (simp add: reduceState_def)
  from Drop_apply_fields [OF this] Drop show ?thesis by auto
qed

text \<open>
  C2 at the line clear of \<open>nearlyFullState\<close>, which appends the ten cubes of row 19, and
  at a Move and a Tick after it, which keep them.
\<close>

theorem clearBlocks_accumulates_witness:
  "reduceState nearlyFullState (Tick 0) = Some (Inr clearedState)
   \<and> prefix (clearBlocks nearlyFullState) (clearBlocks clearedState)
   \<and> clearBlocks clearedState = clearBlocks nearlyFullState @ getRemovedCubes lockedGrid [19]
   \<and> map coords (getRemovedCubes lockedGrid [19])
        = [(19, 0), (19, 1), (19, 2), (19, 3), (19, 4), (19, 5), (19, 6), (19, 7), (19, 8), (19, 9)]
   \<and> length (clearBlocks clearedState) = 10
   \<and> reduceState clearedState (Move 1)
       = Some (Inr (clearedState\<lparr>activeBlock := map (updateCubeX 1) (activeBlock clearedState)\<rparr>))
   \<and> clearBlocks (clearedState\<lparr>activeBlock := map (updateCubeX 1) (activeBlock clearedState)\<rparr>)
       = clearBlocks clearedState
   \<and> reduceState clearedState (Tick 0)
       = Some (Inr (clearedState\<lparr>activeBlock := map (moveCube 1) (activeBlock clearedState)\<rparr>))
   \<and> clearBlocks (clearedState\<lparr>activeBlock := map (moveCube 1) (activeBlock clearedState)\<rparr>)
       = clearBlocks clearedState"
proof -
  have a: "reduceState nearlyFullState (Tick 0) = Some (Inr clearedState)"
    by code_simp
  have b: "length (clearBlocks clearedState) = 10"
    by code_simp
  have c: "reduceState clearedState (Move 1)
       = Some (Inr (clearedState\<lparr>activeBlock := map (updateCubeX 1) (activeBlock clearedState)\<rparr>))"
    by code_simp
  have d: "map coords (getRemovedCubes lockedGrid [19])
        = [(19, 0), (19, 1), (19, 2), (19, 3), (19, 4), (19, 5), (19, 6), (19, 7), (19, 8), (19, 9)]"
    by code_simp
  have e: "reduceState clearedState (Tick 0)
       = Some (Inr (clearedState\<lparr>activeBlock := map (moveCube 1) (activeBlock clearedState)\<rparr>))"
    by code_simp
  note p = clearBlocks_accumulates [OF a, THEN conjunct1]
  have "\<not> isTickAction (Move 1) \<and> Move 1 \<noteq> Restart" by simp
  note m = clearBlocks_accumulates [OF c, THEN conjunct2, THEN conjunct1, THEN mp, OF this]
  have g1: "getElapsed (Tick 0) mod max (INITIAL_SPEED - level nearlyFullState * 10) MAX_SPEED = 0"
    by simp
  have g2: "\<not> gameEnd nearlyFullState"
    by (simp add: nearlyFullState_def initialState_def)
  have g3: "checkBlockCollision
              [total checkCubeRowExceedsBoundaries, cantMoveDown (grid nearlyFullState)]
              (activeBlock nearlyFullState) = Inr True"
    by code_simp
  have g4: "getDeletingRows (setBlockInArray (grid nearlyFullState) (activeBlock nearlyFullState))
              (getRecentlyPlacedRows (activeBlock nearlyFullState)) = Inr [19]"
    by code_simp
  have "isTickAction (Tick 0)
          \<and> getElapsed (Tick 0) mod max (INITIAL_SPEED - level nearlyFullState * 10) MAX_SPEED = 0
          \<and> \<not> gameEnd nearlyFullState
          \<and> checkBlockCollision
                [total checkCubeRowExceedsBoundaries, cantMoveDown (grid nearlyFullState)]
                (activeBlock nearlyFullState) = Inr True
          \<and> getDeletingRows (setBlockInArray (grid nearlyFullState) (activeBlock nearlyFullState))
                (getRecentlyPlacedRows (activeBlock nearlyFullState)) = Inr [19]
          \<and> [19] \<noteq> ([] :: int list)"
    using g1 g2 g3 g4 by simp
  note l = clearBlocks_accumulates [OF a, of "[19]", THEN conjunct2, THEN conjunct2,
      THEN conjunct2, THEN conjunct2, THEN conjunct1, THEN mp, OF this, folded lockedGrid_def]
  have h: "checkBlockCollision
             [total checkCubeRowExceedsBoundaries, cantMoveDown (grid clearedState)]
             (activeBlock clearedState) = Inr False"
    by code_simp
  then have "isTickAction (Tick 0)
          \<and> (getElapsed (Tick 0) mod max (INITIAL_SPEED - level clearedState * 10) MAX_SPEED \<noteq> 0
               \<or> gameEnd clearedState
               \<or> checkBlockCollision
                    [total checkCubeRowExceedsBoundaries, cantMoveDown (grid clearedState)]
                    (activeBlock clearedState) = Inr False
               \<or> getDeletingRows (setBlockInArray (grid clearedState) (activeBlock clearedState))
                    (getRecentlyPlacedRows (activeBlock clearedState)) = Inr [])"
    by simp
  note k = clearBlocks_accumulates [OF e, THEN conjunct2, THEN conjunct2, THEN conjunct2,
      THEN conjunct2, THEN conjunct2, THEN mp, OF this]
  show ?thesis
    by (intro conjI) (fact a p l d b c m e k)+
qed

text \<open>
  C2 as stated fails: after a line clear, a Move removes no cube, and \<open>clearBlocks\<close> of
  its result still lists the ten cubes of the cleared row.
\<close>

theorem clearBlocks_not_reset:
  "(case reduceState clearedState (Move 1) of
      Some (Inr s') \<Rightarrow> grid s' = grid clearedState \<and> clearBlocks s' = clearBlocks clearedState
                        \<and> clearBlocks s' \<noteq> []
    | _ \<Rightarrow> False)"
  by code_simp

section \<open>C3: the score of a line clear\<close>

lemma card_touchedFullRows:
  assumes "getDeletingRows (setBlockInArray (grid s) (activeBlock s))
             (getRecentlyPlacedRows (activeBlock s)) = Inr deletingRows"
  shows "card (touchedFullRows s) = length deletingRows"
proof -
  let ?p = "\<lambda>r. rowFilled (setBlockInArray (grid s) (activeBlock s)) r = Inr True"
  have d: "deletingRows = filter ?p (removeDuplicates (map grid_row (activeBlock s)))"
    using assms filter_err_Inr unfolding getDeletingRows_def getRecentlyPlacedRows_def by blast
  have "distinct deletingRows" unfolding d by (simp add: distinct_removeDuplicates)
  moreover have "set deletingRows = touchedFullRows s"
    unfolding d touchedFullRows_def by (auto simp add: set_removeDuplicates)
  ultimately show ?thesis using distinct_card by fastforce
qed

lemma handleCollisions_deletingRows:
  assumes "handleCollisions s = Inr s'"
  shows "\<exists>deletingRows. getDeletingRows (setBlockInArray (grid s) (activeBlock s))
             (getRecentlyPlacedRows (activeBlock s)) = Inr deletingRows"
  using assms by (auto simp add: handleCollisions_def ebind_def Let_def split: sum.splits)

lemma handleCollisions_score:
  assumes "handleCollisions s = Inr s'"
    and "getDeletingRows (setBlockInArray (grid s) (activeBlock s))
             (getRecentlyPlacedRows (activeBlock s)) = Inr deletingRows"
    and "deletingRows \<noteq> []"
  shows "score s' = score s + NUM_OF_COLUMNS * int (length deletingRows)
         \<and> level s' = (score s + NUM_OF_COLUMNS * int (length deletingRows)) div NUM_OF_COLUMNS"
  using assms
  by (auto simp add: handleCollisions_def ebind_def Let_def handleBlockClear_def split: sum.splits)

text \<open>
  C3: when a Tick locks the active block (the game not ended, the block colliding) and
  \<open>k \<ge> 1\<close> of the rows the block touches are fully occupied, the score grows by exactly
  \<open>columnCount * k\<close> and the level becomes \<open>floor (newScore / columnCount)\<close>.
\<close>

theorem line_clear_score:
  assumes "\<not> gameEnd s"
    and "checkBlockCollision [total checkCubeRowExceedsBoundaries, cantMoveDown (grid s)]
           (activeBlock s) = Inr True"
    and "Tick_apply elapsed s = Inr s'"
    and "k = card (touchedFullRows s)"
    and "k \<ge> 1"
  shows "score s' = score s + NUM_OF_COLUMNS * int k
         \<and> level s' = (score s + NUM_OF_COLUMNS * int k) div NUM_OF_COLUMNS"
proof -
  from assms(1-3) have hc: "handleCollisions s = Inr s'"
    by (simp add: Tick_apply_def ebind_def)
  from handleCollisions_deletingRows [OF hc] obtain deletingRows where
    del: "getDeletingRows (setBlockInArray (grid s) (activeBlock s))
             (getRecentlyPlacedRows (activeBlock s)) = Inr deletingRows" by blast
  from card_touchedFullRows [OF del] assms(4) have k: "length deletingRows = k" by simp
  with assms(5) have "deletingRows \<noteq> []" by auto
  from handleCollisions_score [OF hc del this] k show ?thesis by simp
qed

lemma nearlyFull_deletingRows:
  "getDeletingRows (setBlockInArray (grid nearlyFullState) (activeBlock nearlyFullState))
     (getRecentlyPlacedRows (activeBlock nearlyFullState)) = Inr [19]"
  by code_simp

text \<open>C3 where the square block completes row 19: one row cleared, score 10, level 1.\<close>

theorem line_clear_score_witness:
  "\<not> gameEnd nearlyFullState
   \<and> checkBlockCollision [total checkCubeRowExceedsBoundaries, cantMoveDown (grid nearlyFullState)]
           (activeBlock nearlyFullState) = Inr True
   \<and> card (touchedFullRows nearlyFullState) = 1
   \<and> (\<exists>s'. Tick_apply 0 nearlyFullState = Inr s' \<and> score s' = score nearlyFullState + 10
          \<and> level s' = 1)"
proof -
  have a: "\<not> gameEnd nearlyFullState"
    by (simp add: nearlyFullState_def initialState_def)
  have b: "checkBlockCollision [total checkCubeRowExceedsBoundaries, cantMoveDown (grid nearlyFullState)]
           (activeBlock nearlyFullState) = Inr True"
    by code_simp
  have c: "card (touchedFullRows nearlyFullState) = 1"
    using card_touchedFullRows [OF nearlyFull_deletingRows] by simp
  have "\<not> isl (Tick_apply 0 nearlyFullState)"
    by code_simp
  then obtain s' where d: "Tick_apply 0 nearlyFullState = Inr s'"
    by (cases "Tick_apply 0 nearlyFullState") auto
  have e: "score nearlyFullState = 0"
    by (simp add: nearlyFullState_def initialState_def)
  from line_clear_score [OF a b d, of 1] c e
  have "score s' = score nearlyFullState + 10 \<and> level s' = 1"
    by (simp add: NUM_OF_COLUMNS_eq)
  with a b c d show ?thesis by blast
qed

section \<open>C4: Drop\<close>

text \<open>
  C4 against the code. Drop tests the collision conditions on the block moved one row down
  and keeps the unmoved block when they hold, so it stops one row before the block rests.
  From the initial state, the square block is dropped and locked on the floor (rows 18 and
  19, columns 4 and 5). Drop then takes the T block to rows 15 and 16: the cells below its
  lowest cubes, in row 17, are empty, the block is neither next to the floor nor on an
  occupied cell, and the next Tick moves it one more row down instead of locking it.
  (Drop does return for every non-empty block, \<open>Drop_apply_returns\<close>, and no block that
  it has moved is at rest, \<open>Drop_apply_never_rests\<close>.)
\<close>

theorem drop_stops_one_row_short:
  "run_actions [Drop, Tick 0, Tick 100] initialState = Some (Inr squareLockedState)
   \<and> map coords (activeBlock squareLockedState) = [(0, 5), (1, 4), (1, 5), (1, 6)]
   \<and> cubesOf (grid squareLockedState) = map (moveCube 18) startingBlock
   \<and> map coords (cubesOf (grid squareLockedState)) = [(18, 4), (18, 5), (19, 4), (19, 5)]
   \<and> Drop_apply squareLockedState = Some (Inr droppedState)
   \<and> map coords (activeBlock droppedState) = [(15, 5), (16, 4), (16, 5), (16, 6)]
   \<and> grid droppedState = grid squareLockedState
   \<and> cellAt (grid droppedState) 17 4 = None
   \<and> cellAt (grid droppedState) 17 5 = None
   \<and> cellAt (grid droppedState) 17 6 = None
   \<and> Tick_apply 200 droppedState
       = Inr (droppedState\<lparr>activeBlock := map (moveCube 1) (activeBlock droppedState)\<rparr>)"
  by code_simp

section \<open>C5: the column boundary predicate\<close>

text \<open>
  C5, as the code has it: a cube exceeds the column boundary exactly when its column is
  below 0 or above \<open>columnCount - 1\<close>, that is at least \<open>columnCount\<close>. The last column of
  the grid, \<open>columnCount - 1 = 9\<close>, is inside.
\<close>

theorem checkCubeColExceedsBoundaries_iff:
  "checkCubeColExceedsBoundaries cube = (grid_col cube < 0 \<or> grid_col cube \<ge> NUM_OF_COLUMNS)"
  by (auto simp add: checkCubeColExceedsBoundaries_def)

text \<open>
  C5 as stated fails: a cube in column 9 has its column \<open>\<ge> columnCount - 1\<close>, and the
  predicate does not hold of it.
\<close>

theorem column_nine_within_boundary:
  "grid_col (createCube 0 9 0 False) \<ge> NUM_OF_COLUMNS - 1
   \<and> \<not> checkCubeColExceedsBoundaries (createCube 0 9 0 False)"
  by (simp add: checkCubeColExceedsBoundaries_def createCube_def NUM_OF_COLUMNS_eq)

section \<open>C6: removing rows and shifting down\<close>

lemma list_all_enumerate:
  "list_all P (List.enumerate 0 xs) \<longleftrightarrow> (\<forall>i < length xs. P (i, xs ! i))"
  by (auto simp add: list_all_iff in_set_enumerate_eq)

lemma wfGrid_iff:
  "wfGrid g \<longleftrightarrow> length g = 20
     \<and> (\<forall>r < 20. length (g ! r) = 10
          \<and> (\<forall>c < 10. \<forall>cube. g ! r ! c = Some cube \<longrightarrow> grid_row cube = int r \<and> grid_col cube = int c))"
  unfolding wfGrid_def list_all_enumerate NUM_OF_ROWS_eq NUM_OF_COLUMNS_eq
  by (auto split: option.splits)

lemma wfGrid_length: "wfGrid g \<Longrightarrow> length g = 20"
  by (simp add: wfGrid_iff)

lemma wfGrid_row_length: "wfGrid g \<Longrightarrow> r < 20 \<Longrightarrow> length (g ! r) = 10"
  by (simp add: wfGrid_iff)

lemma wfGrid_cell:
  "wfGrid g \<Longrightarrow> r < 20 \<Longrightarrow> c < 10 \<Longrightarrow> g ! r ! c = Some cube
   \<Longrightarrow> grid_row cube = int r \<and> grid_col cube = int c"
  by (simp add: wfGrid_iff)

lemma set_filterNotNull: "set (filterNotNull xs) = {v. Some v \<in> set xs}"
  by (induction xs rule: filterNotNull.induct) auto

lemma set_cubesOf:
  "cube \<in> set (cubesOf g) \<longleftrightarrow> (\<exists>r < length g. \<exists>c < length (g ! r). g ! r ! c = Some cube)"
proof
  assume "cube \<in> set (cubesOf g)"
  then have "Some cube \<in> set (concat g)"
    by (simp add: cubesOf_def set_filterNotNull)
  then obtain row where row: "row \<in> set g" "Some cube \<in> set row" by auto
  then obtain r c where "r < length g" "g ! r = row" "c < length row" "row ! c = Some cube"
    by (metis in_set_conv_nth)
  then show "\<exists>r < length g. \<exists>c < length (g ! r). g ! r ! c = Some cube" by blast
next
  assume "\<exists>r < length g. \<exists>c < length (g ! r). g ! r ! c = Some cube"
  then obtain r c where rc: "r < length g" "c < length (g ! r)" "g ! r ! c = Some cube" by blast
  then have "g ! r \<in> set g" "Some cube \<in> set (g ! r)"
    by (simp_all, metis nth_mem)
  then have "Some cube \<in> set (concat g)" by auto
  then show "cube \<in> set (cubesOf g)"
    by (simp add: cubesOf_def set_filterNotNull)
qed

lemma cellAt_nth:
  "r < length g \<Longrightarrow> c < length (g ! r) \<Longrightarrow> cellAt g (int r) (int c) = g ! r ! c"
  by (simp add: cellAt_def js_index_def)

lemma wfGrid_cube:
  assumes "wfGrid g" and "cube \<in> set (cubesOf g)"
  shows "0 \<le> grid_row cube \<and> grid_row cube < 20 \<and> 0 \<le> grid_col cube \<and> grid_col cube < 10
         \<and> cellAt g (grid_row cube) (grid_col cube) = Some cube"
proof -
  from assms(2) obtain r c where rc: "r < length g" "c < length (g ! r)" "g ! r ! c = Some cube"
    unfolding set_cubesOf by blast
  from assms(1) rc(1) have r: "r < 20" by (simp add: wfGrid_length)
  from wfGrid_row_length [OF assms(1) r] rc(2) have c: "c < 10" by simp
  from wfGrid_cell [OF assms(1) r c rc(3)]
  have "grid_row cube = int r" "grid_col cube = int c" by simp_all
  with r c rc(3) cellAt_nth [OF rc(1,2)] show ?thesis by simp
qed

lemma wfGrid_same_position:
  assumes "wfGrid g" and "c1 \<in> set (cubesOf g)" and "c2 \<in> set (cubesOf g)"
    and "grid_row c1 = grid_row c2" and "grid_col c1 = grid_col c2"
  shows "c1 = c2"
proof -
  from wfGrid_cube [OF assms(1,2)] have "cellAt g (grid_row c1) (grid_col c1) = Some c1"
    by blast
  moreover from wfGrid_cube [OF assms(1,3)] have "cellAt g (grid_row c2) (grid_col c2) = Some c2"
    by blast
  ultimately have "Some c1 = Some c2"
    by (simp only: assms(4,5))
  then show ?thesis by (simp only: option.inject)
qed

lemma length_generate2DArray: "length (generate2DArray f) = 20"
  by (simp add: generate2DArray_def NUM_OF_ROWS_eq)

lemma nth_generate2DArray:
  "r < 20 \<Longrightarrow> generate2DArray f ! r = map (\<lambda>colIndex. f (int r) (int colIndex)) [0 ..< 10]"
  by (simp add: generate2DArray_def NUM_OF_ROWS_eq NUM_OF_COLUMNS_eq)

lemma cellAt_generate2DArray:
  "cellAt (generate2DArray f) r c
     = (if 0 \<le> r \<and> r < 20 \<and> 0 \<le> c \<and> c < 10 then f r c else None)"
proof (cases "0 \<le> r \<and> r < 20")
  case False
  then show ?thesis by (auto simp add: cellAt_def js_index_def length_generate2DArray)
next
  case True
  then have r: "nat r < 20" by linarith
  have row: "js_index (generate2DArray f) r
               = Some (map (\<lambda>colIndex. f r (int colIndex)) [0 ..< 10])"
    using True by (simp add: js_index_def length_generate2DArray nth_generate2DArray [OF r])
  show ?thesis
  proof (cases "0 \<le> c \<and> c < 10")
    case False
    with True row show ?thesis by (auto simp add: cellAt_def js_index_def)
  next
    case inside: True
    then have c: "nat c < 10" by linarith
    then have "map (\<lambda>colIndex. f r (int colIndex)) [0 ..< 10] ! nat c = f r (int (nat c))"
      by simp
    with inside have "js_index (map (\<lambda>colIndex. f r (int colIndex)) [0 ..< 10]) c = Some (f r c)"
      by (simp add: js_index_def)
    with True inside row show ?thesis by (simp add: cellAt_def)
  qed
qed

lemma wfGrid_generate2DArray:
  assumes "\<And>r c cube. f r c = Some cube \<Longrightarrow> grid_row cube = r \<and> grid_col cube = c"
  shows "wfGrid (generate2DArray f)"
  unfolding wfGrid_iff
proof (intro conjI allI impI)
  show "length (generate2DArray f) = 20" by (rule length_generate2DArray)
next
  fix r :: nat assume "r < 20"
  then show "length (generate2DArray f ! r) = 10" by (simp add: nth_generate2DArray)
next
  fix r c :: nat and cube assume "r < 20" "c < 10" "generate2DArray f ! r ! c = Some cube"
  then have "f (int r) (int c) = Some cube" by (simp add: nth_generate2DArray)
  from assms [OF this] show "grid_row cube = int r" "grid_col cube = int c" by simp_all
qed

lemma set_cubesOf_generate2DArray:
  "cube \<in> set (cubesOf (generate2DArray f))
     \<longleftrightarrow> (\<exists>r < 20. \<exists>c < 10. f (int r) (int c) = Some cube)"
proof
  assume "cube \<in> set (cubesOf (generate2DArray f))"
  then obtain r c where rc: "r < length (generate2DArray f)" "c < length (generate2DArray f ! r)"
    "generate2DArray f ! r ! c = Some cube"
    unfolding set_cubesOf by blast
  from rc(1) have r: "r < 20" by (simp add: length_generate2DArray)
  with rc(2) have c: "c < 10" by (simp add: nth_generate2DArray)
  from rc(3) r c have "f (int r) (int c) = Some cube" by (simp add: nth_generate2DArray)
  with r c show "\<exists>r < 20. \<exists>c < 10. f (int r) (int c) = Some cube" by blast
next
  assume "\<exists>r < 20. \<exists>c < 10. f (int r) (int c) = Some cube"
  then obtain r c where r: "r < 20" and c: "c < 10" and f: "f (int r) (int c) = Some cube"
    by blast
  have "r < length (generate2DArray f)" using r by (simp add: length_generate2DArray)
  moreover have "c < length (generate2DArray f ! r)" using r c by (simp add: nth_generate2DArray)
  moreover have "generate2DArray f ! r ! c = Some cube" using r c f by (simp add: nth_generate2DArray)
  ultimately show "cube \<in> set (cubesOf (generate2DArray f))"
    unfolding set_cubesOf by blast
qed

lemma filterNotNull_filter:
  "filterNotNull (filter (\<lambda>cell. case cell of None \<Rightarrow> False | Some cube \<Rightarrow> P cube) xs)
     = filter P (filterNotNull xs)"
  by (induction xs rule: filterNotNull.induct) auto

lemma filterNotNull_append: "filterNotNull (xs @ ys) = filterNotNull xs @ filterNotNull ys"
  by (induction xs rule: filterNotNull.induct) auto

lemma filterNotNull_concat_filter:
  "filterNotNull (concat (map (filter (\<lambda>cell. case cell of None \<Rightarrow> False | Some cube \<Rightarrow> P cube)) g))
     = filter P (filterNotNull (concat g))"
  by (induction g) (simp_all add: filterNotNull_append filterNotNull_filter)

lemma leftOverCubes_eq:
  "leftOverCubes g R = map (shiftCube R) (filter (\<lambda>cube. grid_row cube \<notin> set R) (cubesOf g))"
  unfolding leftOverCubes_def flatMap_def cubesOf_def shiftCube_def
  by (simp add: filterNotNull_concat_filter)

lemma Math_min_eq: "R \<noteq> [] \<Longrightarrow> Math_min R = Some (Min (set R))"
proof (induction R)
  case Nil
  then show ?case by simp
next
  case (Cons v R)
  then show ?case by (cases "R = []") (auto simp add: min_def Min_insert)
qed

lemma find_unique:
  assumes "v \<in> set xs" and "P v" and "\<And>w. w \<in> set xs \<Longrightarrow> P w \<Longrightarrow> w = v"
  shows "find P xs = Some v"
  using assms
proof (induction xs)
  case Nil
  then show ?case by simp
next
  case (Cons a xs)
  show ?case
  proof (cases "P a")
    case True
    with Cons.prems(3) [of a] have "a = v" by simp
    with True show ?thesis by simp
  next
    case False
    with Cons.prems(1,2) have "v \<in> set xs" by auto
    moreover have "\<And>w. w \<in> set xs \<Longrightarrow> P w \<Longrightarrow> w = v" using Cons.prems(3) by simp
    ultimately have "find P xs = Some v" using Cons.IH Cons.prems(2) by blast
    with False show ?thesis by simp
  qed
qed

lemma find_SomeD: "find P xs = Some v \<Longrightarrow> P v \<and> v \<in> set xs"
  by (induction xs) (auto split: if_splits)

lemma Min_run:
  assumes "R \<noteq> []" and "set R = {m ..< m + int (length R)}"
  shows "Min (set R) = m"
proof (rule Min_eqI)
  show "finite (set R)" by simp
  show "m \<le> y" if "y \<in> set R" for y using that assms(2) by simp
  from assms(1) have "0 < length R" by simp
  then show "m \<in> set R" unfolding assms(2) by simp
qed

lemma shiftCube_run:
  assumes "R \<noteq> []" and "set R = {m ..< m + int (length R)}"
  shows "shiftCube R cube = (if grid_row cube < m then moveCube (int (length R)) cube else cube)"
  by (simp add: shiftCube_def Math_min_eq [OF assms(1)] Min_run [OF assms])

lemma grid_row_moveCube: "grid_row (moveCube k cube) = grid_row cube + k"
  by (simp add: moveCube_def)

lemma grid_col_moveCube: "grid_col (moveCube k cube) = grid_col cube"
  by (simp add: moveCube_def)

lemma removeRowsAndShiftDown_cell:
  "cellAt (removeRowsAndShiftDown g R) r c
     = (if 0 \<le> r \<and> r < 20 \<and> 0 \<le> c \<and> c < 10
        then find (\<lambda>cube. grid_row cube = r \<and> c = grid_col cube) (leftOverCubes g R) else None)"
  unfolding removeRowsAndShiftDown_def by (rule cellAt_generate2DArray)

lemma wfGrid_removeRowsAndShiftDown: "wfGrid (removeRowsAndShiftDown g R)"
  unfolding removeRowsAndShiftDown_def
proof (rule wfGrid_generate2DArray)
  fix r c cube
  assume "find (\<lambda>cube. grid_row cube = r \<and> c = grid_col cube) (leftOverCubes g R) = Some cube"
  from find_SomeD [OF this] show "grid_row cube = r \<and> grid_col cube = c" by simp
qed

lemma cubesOf_removeRowsAndShiftDown:
  assumes "cube \<in> set (cubesOf (removeRowsAndShiftDown g R))"
  shows "\<exists>orig \<in> set (cubesOf g). grid_row orig \<notin> set R \<and> cube = shiftCube R orig"
proof -
  from assms obtain r c where
    "find (\<lambda>cube. grid_row cube = int r \<and> int c = grid_col cube) (leftOverCubes g R) = Some cube"
    unfolding removeRowsAndShiftDown_def set_cubesOf_generate2DArray by blast
  from find_SomeD [OF this] have "cube \<in> set (leftOverCubes g R)" by simp
  then show ?thesis unfolding leftOverCubes_eq by auto
qed

lemma survivor_placed:
  assumes wf: "wfGrid g" and ne: "R \<noteq> []" and run: "set R = {m ..< m + int (length R)}"
    and top: "m + int (length R) \<le> NUM_OF_ROWS"
    and orig: "orig \<in> set (cubesOf g)" and keep: "grid_row orig \<notin> set R"
  shows "cellAt (removeRowsAndShiftDown g R) (grid_row (shiftCube R orig)) (grid_col (shiftCube R orig))
           = Some (shiftCube R orig)"
proof -
  let ?k = "int (length R)"
  let ?s = "shiftCube R"
  note sh = shiftCube_run [OF ne run]
  from wfGrid_cube [OF wf orig]
  have pos: "0 \<le> grid_row orig" "grid_row orig < 20" "0 \<le> grid_col orig" "grid_col orig < 10"
    by simp_all
  have row_s: "grid_row (?s c) = (if grid_row c < m then grid_row c + ?k else grid_row c)" for c
    by (simp add: sh grid_row_moveCube)
  have col_s: "grid_col (?s c) = grid_col c" for c
    by (simp add: sh grid_col_moveCube)
  have inside: "0 \<le> grid_row (?s orig) \<and> grid_row (?s orig) < 20"
    using pos top by (simp add: row_s NUM_OF_ROWS_eq)
  have mem: "?s orig \<in> set (leftOverCubes g R)"
    unfolding leftOverCubes_eq using orig keep by simp
  have uniq: "w = ?s orig"
    if w: "w \<in> set (leftOverCubes g R)"
      and same: "grid_row w = grid_row (?s orig) \<and> grid_col (?s orig) = grid_col w" for w
  proof -
    from w obtain o2 where o2: "o2 \<in> set (cubesOf g)" "grid_row o2 \<notin> set R" "w = ?s o2"
      unfolding leftOverCubes_eq by auto
    from o2(2) keep run have out: "grid_row o2 < m \<or> m + ?k \<le> grid_row o2"
      "grid_row orig < m \<or> m + ?k \<le> grid_row orig" by auto
    from same o2(3) have "grid_row (?s o2) = grid_row (?s orig)" "grid_col o2 = grid_col orig"
      by (simp_all add: col_s)
    with out have "grid_row o2 = grid_row orig"
      unfolding row_s by (auto split: if_splits)
    from wfGrid_same_position [OF wf o2(1) orig this \<open>grid_col o2 = grid_col orig\<close>]
    have "o2 = orig" .
    with o2(3) show ?thesis by simp
  qed
  have "find (\<lambda>cube. grid_row cube = grid_row (?s orig) \<and> grid_col (?s orig) = grid_col cube)
          (leftOverCubes g R) = Some (?s orig)"
    by (rule find_unique [OF mem]) (simp, rule uniq)
  with inside pos show ?thesis
    unfolding removeRowsAndShiftDown_cell by (simp add: col_s)
qed

text \<open>
  Where the removed rows are adjacent, the rebuild is right. For a well-formed grid and a
  non-empty run \<open>R\<close> of consecutive rows of the grid (\<open>m\<close> its first row),
  \<open>removeRowsAndShiftDown\<close> returns a well-formed grid (full size, every cube in the
  cell of its own coordinates) in which every cube is a surviving cube of the input,
  moved down by \<open>|R|\<close> rows if it was above \<open>m\<close> and untouched otherwise; every
  surviving cube above \<open>m\<close> sits \<open>|R|\<close> rows lower (pixel y recomputed from the new
  row); and every other surviving cube sits where it was.
\<close>

lemma removeRowsAndShiftDown_consecutive_rows:
  assumes "wfGrid g" and "R \<noteq> []" and "set R = {m ..< m + int (length R)}"
    and "m + int (length R) \<le> NUM_OF_ROWS"
  shows "wfGrid (removeRowsAndShiftDown g R)
     \<and> (\<forall>cube \<in> set (cubesOf (removeRowsAndShiftDown g R)).
           \<exists>orig \<in> set (cubesOf g). grid_row orig \<notin> set R
              \<and> cube = (if grid_row orig < m then moveCube (int (length R)) orig else orig))
     \<and> (\<forall>orig \<in> set (cubesOf g). grid_row orig \<notin> set R \<longrightarrow>
           (if grid_row orig < m
            then cellAt (removeRowsAndShiftDown g R) (grid_row orig + int (length R)) (grid_col orig)
                   = Some (moveCube (int (length R)) orig)
            else cellAt (removeRowsAndShiftDown g R) (grid_row orig) (grid_col orig) = Some orig))
     \<and> (\<forall>cube. grid_row (moveCube (int (length R)) cube) = grid_row cube + int (length R)
           \<and> cube_y (moveCube (int (length R)) cube) = calculateYcoord (grid_row cube + int (length R))
           \<and> grid_col (moveCube (int (length R)) cube) = grid_col cube
           \<and> cube_x (moveCube (int (length R)) cube) = cube_x cube)"
proof (intro conjI ballI allI impI)
  show "wfGrid (removeRowsAndShiftDown g R)" by (rule wfGrid_removeRowsAndShiftDown)
next
  fix cube assume "cube \<in> set (cubesOf (removeRowsAndShiftDown g R))"
  from cubesOf_removeRowsAndShiftDown [OF this]
  show "\<exists>orig \<in> set (cubesOf g). grid_row orig \<notin> set R
              \<and> cube = (if grid_row orig < m then moveCube (int (length R)) orig else orig)"
    unfolding shiftCube_run [OF assms(2,3)] .
next
  fix orig assume orig: "orig \<in> set (cubesOf g)" and keep: "grid_row orig \<notin> set R"
  note placed = survivor_placed [OF assms orig keep, unfolded shiftCube_run [OF assms(2,3)]]
  show "if grid_row orig < m
        then cellAt (removeRowsAndShiftDown g R) (grid_row orig + int (length R)) (grid_col orig)
               = Some (moveCube (int (length R)) orig)
        else cellAt (removeRowsAndShiftDown g R) (grid_row orig) (grid_col orig) = Some orig"
  proof (cases "grid_row orig < m")
    case True
    with placed show ?thesis by (simp add: grid_row_moveCube grid_col_moveCube)
  next
    case False
    with placed show ?thesis by simp
  qed
qed (simp_all add: moveCube_def)

text \<open>
  C6 against the code. \<open>removeRowsAndShiftDown\<close> moves every surviving cube above the
  first removed row down by the number of removed rows, and fills each cell of the new
  grid with the first survivor that it finds at the position of the cell. When the removed
  rows are not adjacent, a cube moved from above arrives at the position of a surviving
  cube of a row between them, and the lookup keeps one of the two.
  The game \<open>twoRowsActions\<close> reaches \<open>twoRowsState\<close>, where the upright I block in column
  5 (rows 16 to 19) completes the rows 17 and 19. Twelve cubes survive, four in row 16 and
  eight in row 18. The four of row 16 move to row 18, to the cells (18, 1), (18, 3),
  (18, 4) and (18, 5), which hold survivors: the new grid holds eight cubes. The cube of
  cell (18, 5), which C6 leaves where it is, is in no cell of the new grid, and cell
  (18, 5) holds the cube that came from cell (16, 5). The Tick that locks the block
  returns this grid.
\<close>

theorem removeRowsAndShiftDown_loses_survivors:
  "list_all emitted twoRowsActions
   \<and> run_actions twoRowsActions initialState = Some (Inr twoRowsState)
   \<and> map coords (activeBlock twoRowsState) = [(16, 5), (17, 5), (18, 5), (19, 5)]
   \<and> wfGrid twoRowsGrid
   \<and> getDeletingRows twoRowsGrid (getRecentlyPlacedRows (activeBlock twoRowsState)) = Inr [17, 19]
   \<and> map coords (filter (\<lambda>cube. grid_row cube \<notin> set [17, 19]) (cubesOf twoRowsGrid))
        = [(16, 1), (16, 3), (16, 4), (16, 5),
           (18, 1), (18, 3), (18, 4), (18, 5), (18, 6), (18, 7), (18, 8), (18, 9)]
   \<and> map coords (cubesOf (removeRowsAndShiftDown twoRowsGrid [17, 19]))
        = [(18, 1), (18, 3), (18, 4), (18, 5), (18, 6), (18, 7), (18, 8), (18, 9)]
   \<and> cellAt twoRowsGrid 16 5 = Some (uprightBlock ! 0)
   \<and> cellAt twoRowsGrid 18 5 = Some (uprightBlock ! 2)
   \<and> cellAt (removeRowsAndShiftDown twoRowsGrid [17, 19]) 18 5
        = Some (moveCube 2 (uprightBlock ! 0))
   \<and> uprightBlock ! 2 \<notin> set (cubesOf (removeRowsAndShiftDown twoRowsGrid [17, 19]))
   \<and> map_option (map_sum id grid) (run_actions [Tick 1600] twoRowsState)
        = Some (Inr (removeRowsAndShiftDown twoRowsGrid [17, 19]))"
  by code_simp

section \<open>C7: the speed gate of the reducer\<close>

text \<open>
  C7: with \<open>speed = max (initialSpeed - level * 10) maxSpeed\<close>, a Tick whose elapsed counter
  is not a multiple of \<open>speed\<close> leaves the state as it is; every other action, and every
  Tick on a multiple of \<open>speed\<close>, is applied by the action's own \<open>apply\<close>.
\<close>

theorem reduceState_speed_gate:
  "reduceState s a =
     (if isTickAction a \<and> getElapsed a mod (max (INITIAL_SPEED - level s * 10) MAX_SPEED) \<noteq> 0
      then Some (Inr s) else apply_action a s)"
proof -
  have "js_max (INITIAL_SPEED - level s * 10) MAX_SPEED = max (INITIAL_SPEED - level s * 10) MAX_SPEED"
    by (simp add: js_max_def max_def)
  then show ?thesis
    by (auto simp add: reduceState_def Let_def smod_eq_0_iff)
qed

text \<open>C7 at level 0 (speed 100): Tick 99 is dropped, Tick 100 and a Move are applied.\<close>

theorem reduceState_speed_gate_witness:
  "reduceState initialState (Tick 99) = Some (Inr initialState)
   \<and> reduceState initialState (Tick 100) = Some (Tick_apply 100 initialState)
   \<and> reduceState initialState (Move 1) = Some (Move_apply 1 initialState)"
  using reduceState_speed_gate [of initialState "Tick 99"]
    reduceState_speed_gate [of initialState "Tick 100"]
    reduceState_speed_gate [of initialState "Move 1"]
  by (simp add: initialState_def INITIAL_SPEED_def MAX_SPEED_def)

section \<open>C8: rotating clockwise, then anticlockwise\<close>

lemma center_rotateCube: "center (rotateCube d c cube) = center cube"
  by (simp add: rotateCube_def Let_def)

lemma find_center_rotate:
  "find center (map (rotateCube d c) blk) = map_option (rotateCube d c) (find center blk)"
  by (induction blk) (simp_all add: center_rotateCube)

lemma coords_rotate_center: "coords (rotateCube clockwise c c) = coords c"
  by (simp add: rotateCube_def coords_def Let_def)

lemma coords_rotate_back:
  "coords c' = coords c \<Longrightarrow>
   coords (rotateCube anticlockwise c' (rotateCube clockwise c cube)) = coords cube"
  by (simp add: rotateCube_def coords_def Let_def)

text \<open>
  C8: when the active block has a centre cube and neither rotation is rejected, Rotate
  clockwise followed by Rotate anticlockwise puts every cube of the active block back on
  its grid row and column. (The grid need not be empty.)
\<close>

theorem rotate_clockwise_anticlockwise:
  assumes "rotationAccepted clockwise s"
    and "Rotate_apply clockwise s = Inr s1"
    and "rotationAccepted anticlockwise s1"
  shows "\<exists>s2. Rotate_apply anticlockwise s1 = Inr s2
              \<and> map coords (activeBlock s2) = map coords (activeBlock s)"
proof -
  from assms(1) obtain c where c: "find (\<lambda>cube. center cube = True) (activeBlock s) = Some c"
    and ok1: "canRotate (grid s) (map (rotateCube clockwise c) (activeBlock s)) = Inr True"
    by (auto simp add: rotationAccepted_def split: option.splits)
  from assms(2) c ok1 have s1: "s1 = s\<lparr>activeBlock := map (rotateCube clockwise c) (activeBlock s)\<rparr>"
    by (simp add: Rotate_apply_def Let_def ebind_def)
  define c' where "c' = rotateCube clockwise c c"
  have c1: "find (\<lambda>cube. center cube = True) (activeBlock s1) = Some c'"
    using c by (simp add: s1 find_center_rotate c'_def)
  from assms(3) c1
  have ok2: "canRotate (grid s1) (map (rotateCube anticlockwise c') (activeBlock s1)) = Inr True"
    by (simp add: rotationAccepted_def)
  have s2: "Rotate_apply anticlockwise s1
              = Inr (s1\<lparr>activeBlock := map (rotateCube anticlockwise c') (activeBlock s1)\<rparr>)"
    using c1 ok2 by (simp add: Rotate_apply_def Let_def ebind_def)
  have "coords c' = coords c" unfolding c'_def by (rule coords_rotate_center)
  then have "map coords (map (rotateCube anticlockwise c') (activeBlock s1)) = map coords (activeBlock s)"
    by (simp add: s1 coords_rotate_back comp_def)
  with s2 show ?thesis by simp
qed

text \<open>C8 on a T block in the middle of the empty grid.\<close>

theorem rotate_clockwise_anticlockwise_witness:
  "rotationAccepted clockwise tBlockState
   \<and> (\<exists>s1. Rotate_apply clockwise tBlockState = Inr s1
          \<and> map coords (activeBlock s1) \<noteq> map coords (activeBlock tBlockState)
          \<and> rotationAccepted anticlockwise s1
          \<and> (\<exists>s2. Rotate_apply anticlockwise s1 = Inr s2
                 \<and> map coords (activeBlock s2) = map coords (activeBlock tBlockState)))"
proof -
  define s1 where "s1 = projr (Rotate_apply clockwise tBlockState)"
  have a: "rotationAccepted clockwise tBlockState"
    by code_simp
  have "\<not> isl (Rotate_apply clockwise tBlockState)"
    by code_simp
  then have b: "Rotate_apply clockwise tBlockState = Inr s1"
    unfolding s1_def by (cases "Rotate_apply clockwise tBlockState") auto
  have c: "rotationAccepted anticlockwise s1"
    unfolding s1_def by code_simp
  have d: "map coords (activeBlock s1) \<noteq> map coords (activeBlock tBlockState)"
    unfolding s1_def by code_simp
  from rotate_clockwise_anticlockwise [OF a b c] a b c d show ?thesis by blast
qed

section \<open>C9: the shape index of a random value\<close>

text \<open>
  C9, as the code has it: the index handed to GenerateBlock is the absolute value of
  \<open>floor (v * 7 - 1)\<close>. It is never negative; for \<open>v\<close> in \<open>[-1, 1]\<close> it is at most 8; and an
  index that fails the bounds check (7 or 8) is replaced by the default shape, the entry
  at index 3.
\<close>

theorem randomTetrominoIndex_abs_floor:
  "randomTetrominoIndex v = \<bar>\<lfloor>v * 7 - 1\<rfloor>\<bar>
   \<and> 0 \<le> randomTetrominoIndex v
   \<and> (- 1 \<le> v \<and> v \<le> 1 \<longrightarrow> randomTetrominoIndex v \<le> 8)
   \<and> (\<not> checkIndex (randomTetrominoIndex v) \<longrightarrow>
        randomTetriminoType (GenerateBlock_apply (randomTetrominoIndex v) s)
          = TETRIMINO_TYPES ! nat DEFAULT_CHOICE)"
proof -
  have idx: "randomTetrominoIndex v = \<bar>\<lfloor>v * 7 - 1\<rfloor>\<bar>"
    by (simp add: randomTetrominoIndex_def TETRIMINO_TYPES_def)
  have bound: "randomTetrominoIndex v \<le> 8" if "- 1 \<le> v" "v \<le> 1"
  proof -
    have "- 8 \<le> v * 7 - 1" "v * 7 - 1 \<le> 6" using that by simp_all
    then have "- 8 \<le> \<lfloor>v * 7 - 1\<rfloor>" "\<lfloor>v * 7 - 1\<rfloor> \<le> 6"
      by (simp_all add: le_floor_iff floor_le_iff)
    then show ?thesis unfolding idx by linarith
  qed
  have dflt: "randomTetriminoType (GenerateBlock_apply i s) = TETRIMINO_TYPES ! nat DEFAULT_CHOICE"
    if "\<not> checkIndex i" for i
    using that by (simp add: GenerateBlock_apply_def)
  show ?thesis using idx bound dflt by simp
qed

text \<open>C9 at the first value of the stream seeded with 6: the index is 7, out of range, and
  GenerateBlock stores the default shape.\<close>

theorem randomTetrominoIndex_abs_floor_witness:
  "- 1 \<le> RNG_scale (RNG_hash 6) \<and> RNG_scale (RNG_hash 6) \<le> 1
   \<and> randomTetrominoIndex (RNG_scale (RNG_hash 6)) = 7 \<and> \<not> checkIndex 7
   \<and> randomTetriminoType (GenerateBlock_apply 7 initialState) = ''O''"
proof -
  have r: "- 1 \<le> RNG_scale (RNG_hash 6) \<and> RNG_scale (RNG_hash 6) \<le> 1"
    unfolding RNG_hash_6 by (simp add: RNG_scale_def RNG_m_def)
  have c: "\<not> checkIndex 7"
    by (simp add: checkIndex_def TETRIMINO_TYPES_def)
  show ?thesis
    using randomTetrominoIndex_abs_floor [of "RNG_scale (RNG_hash 6)" initialState] r c
    by (simp add: index_of_first_random TETRIMINO_TYPES_def DEFAULT_CHOICE_def)
qed

text \<open>
  C9 as stated fails: at the first value of the stream seeded with 6 the code's index is 7,
  and \<open>floor (|v| * 7 - 1)\<close> is 4.
\<close>

theorem randomTetrominoIndex_not_floor_abs:
  "randomTetrominoIndex (RNG_scale (RNG_hash 6)) \<noteq> \<lfloor>\<bar>RNG_scale (RNG_hash 6)\<bar> * 7 - 1\<rfloor>"
  by (simp only: index_of_first_random spec_index_of_first_random)

section \<open>C10: grid accesses of the rotation\<close>

text \<open>
  C10 against the code. \<open>Rotate.apply\<close> tests \<open>checkCurrentCell\<close> on the rotated cubes
  before the two boundary predicates. From the initial state, with the shape I staged and
  two blocks locked, the I block spawns in row 0 of a well-formed grid with all its cubes
  inside the grid. Rotating it puts a cube in row -1 (clockwise) or -2 (anticlockwise);
  \<open>checkCurrentCell\<close> reads that row of the grid, which does not exist, and the reducer
  raises a TypeError. The same happens to the T block rotated on the floor (its centre in
  row 19, a rotated cube in row 20). The first half of C10 holds: the active block of every
  reachable state is inside the grid (\<open>reachable_inGrid\<close>).
\<close>

theorem rotate_reads_outside_grid:
  "run_actions [GenerateBlock 0, Drop, Tick 0, Tick 100, Drop, Tick 200, Tick 300] initialState
     = Some (Inr lineSpawnedState)
   \<and> wfGrid (grid lineSpawnedState)
   \<and> map coords (activeBlock lineSpawnedState) = [(0, 4), (0, 5), (0, 6), (0, 7)]
   \<and> find (\<lambda>cube. center cube = True) (activeBlock lineSpawnedState)
       = Some (activeBlock lineSpawnedState ! 1)
   \<and> map coords (map (rotateCube clockwise (activeBlock lineSpawnedState ! 1))
                     (activeBlock lineSpawnedState)) = [(- 1, 5), (0, 5), (1, 5), (2, 5)]
   \<and> checkCurrentCell (grid lineSpawnedState)
        (rotateCube clockwise (activeBlock lineSpawnedState ! 1) (activeBlock lineSpawnedState ! 0))
       = Inl TypeError
   \<and> Rotate_apply clockwise lineSpawnedState = Inl TypeError
   \<and> Rotate_apply anticlockwise lineSpawnedState = Inl TypeError
   \<and> run_actions [GenerateBlock 0, Drop, Tick 0, Tick 100, Drop, Tick 200, Tick 300,
                   Rotate clockwise] initialState = Some (Inl TypeError)
   \<and> run_actions [Drop, Tick 0, Tick 100, Move 1, Move 1, Drop, Tick 200, Rotate clockwise]
         initialState = Some (Inl TypeError)"
  by code_simp

end
